theory Spec2Isabelle
  imports Complex_Main "HOL-Library.Word"
begin

section \<open>Numbers of the target platform\<close>

text \<open>
  The encoder is C++ for a board with a 32-bit \<open>int\<close>, a 32-bit \<open>size_t\<close> and an
  IEEE-754 binary64 \<open>double\<close>. A double is modelled by its value: not-a-number, an
  infinity with its sign (\<open>True\<close> is negative), a finite real (\<open>Finite 0\<close> is the
  positive zero), or the negative zero. The arithmetic of the encoder does not tell
  the two zeros apart (\<open>-0.0 < 0\<close> is false and \<open>(int)-0.0\<close> is 0); a library
  formatter that is given the value can.
\<close>

type_synonym uint8 = "8 word"

datatype double = NaN | Inf bool | Finite real | NegZero

text \<open>
  What C leaves open is a parameter of the model: the \<open>int\<close> that a conversion from a
  double outside the range of \<open>int\<close> (or from an infinity) yields, the text that
  \<open>sprintf\<close> writes for \<open>%+.*f\<close> (first argument \<open>True\<close>) and \<open>%.*f\<close>, and the text of
  the Arduino core's \<open>String(double, unsigned char)\<close>.
\<close>

record platform =
  int_of_big :: "32 word"
  sprintf_f :: "bool \<Rightarrow> nat \<Rightarrow> double \<Rightarrow> string"
  String_double :: "double \<Rightarrow> nat \<Rightarrow> string"

text \<open>\<open>value == value\<close>, \<open>value < 0\<close>, \<open>-value\<close> and \<open>value > (double)0x7FFFFFFF\<close>.\<close>

fun d_eq_self :: "double \<Rightarrow> bool" where
  "d_eq_self NaN = False"
| "d_eq_self (Inf s) = True"
| "d_eq_self (Finite q) = True"
| "d_eq_self NegZero = True"

fun d_less_zero :: "double \<Rightarrow> bool" where
  "d_less_zero NaN = False"
| "d_less_zero (Inf s) = s"
| "d_less_zero (Finite q) = (q < 0)"
| "d_less_zero NegZero = False"

fun d_uminus :: "double \<Rightarrow> double" where
  "d_uminus NaN = NaN"
| "d_uminus (Inf s) = Inf (\<not> s)"
| "d_uminus (Finite q) = (if q = 0 then NegZero else Finite (- q))"
| "d_uminus NegZero = Finite 0"

definition thres_max :: real where
  "thres_max = 2147483647"

fun d_greater_thres :: "double \<Rightarrow> bool" where
  "d_greater_thres NaN = False"
| "d_greater_thres (Inf s) = (\<not> s)"
| "d_greater_thres (Finite q) = (q > thres_max)"
| "d_greater_thres NegZero = False"

text \<open>The real number that a finite double stands for.\<close>

fun d_finite :: "double \<Rightarrow> real option" where
  "d_finite (Finite q) = Some q"
| "d_finite NegZero = Some 0"
| "d_finite v = None"

text \<open>
  \<open>(int)value\<close>: the fraction is discarded (truncation toward zero); the result is
  defined only when it fits a 32-bit \<open>int\<close>, and is the platform's otherwise.
\<close>

definition trunc_real :: "real \<Rightarrow> int" where
  "trunc_real q = (if q \<ge> 0 then \<lfloor>q\<rfloor> else \<lceil>q\<rceil>)"

fun int_of_double :: "platform \<Rightarrow> double \<Rightarrow> int" where
  "int_of_double pf (Finite q) =
     (if - 2147483648 \<le> trunc_real q \<and> trunc_real q \<le> 2147483647 then trunc_real q
      else sint (int_of_big pf))"
| "int_of_double pf NegZero = 0"
| "int_of_double pf v = sint (int_of_big pf)"

text \<open>C's \<open>/\<close> and \<open>%\<close> on \<open>int\<close> truncate toward zero.\<close>

definition c_div :: "int \<Rightarrow> int \<Rightarrow> int" where
  "c_div a b = sgn a * sgn b * (\<bar>a\<bar> div \<bar>b\<bar>)"

definition c_mod :: "int \<Rightarrow> int \<Rightarrow> int" where
  "c_mod a b = a - b * c_div a b"

text \<open>
  Rounding of a non-negative real below \<open>2^53\<close> to binary64, to nearest with ties to
  even: the significand is the value scaled by the largest power of two (at most
  \<open>2^1074\<close>, the subnormal spacing) that keeps it below \<open>2^53\<close>; \<open>quantum 1 x\<close> is
  that power. Every product that \<open>dtoa\<close> forms is below \<open>10^9\<close>.
\<close>

function quantum :: "int \<Rightarrow> real \<Rightarrow> int" where
  "quantum s x =
     (if 0 < s \<and> s < 2 ^ 1074 \<and> x * of_int (2 * s) < 2 ^ 53 then quantum (2 * s) x else s)"
  by pat_completeness auto
termination
  by (relation "measure (\<lambda>(s, x). nat (2 ^ 1074 - s))") auto

declare quantum.simps [simp del]

definition round_half_even :: "real \<Rightarrow> int" where
  "round_half_even r =
     (let f = \<lfloor>r\<rfloor>; d = r - of_int f
      in if d < 1 / 2 then f else if 1 / 2 < d then f + 1 else if even f then f else f + 1)"

definition fl :: "real \<Rightarrow> real" where
  "fl x = (let s = quantum 1 x in of_int (round_half_even (x * of_int s)) / of_int s)"

section \<open>The numeric encoder (SDI12Sensor.cpp)\<close>

text \<open>
  \<open>IntegralLength\<close>: \<open>do { val /= 10; ++len; } while (val > 0);\<close> on the converted
  magnitude.
\<close>

function IntegralLength_loop :: "int \<Rightarrow> nat \<Rightarrow> nat" where
  "IntegralLength_loop val len =
     (if c_div val 10 > 0 then IntegralLength_loop (c_div val 10) (len + 1) else len + 1)"
  by pat_completeness auto
termination
proof (relation "measure (\<lambda>(val, len). nat val)")
  show "wf (measure (\<lambda>(val, len). nat val))" by simp
next
  fix val :: int and len :: nat
  assume "0 < c_div val 10"
  then have "0 < val" "c_div val 10 = val div 10"
    by (auto simp: c_div_def sgn_if split: if_splits)
  then show "((c_div val 10, len + 1), (val, len)) \<in> measure (\<lambda>(val, len). nat val)"
    by simp
qed

declare IntegralLength_loop.simps [simp del]

definition IntegralLength :: "platform \<Rightarrow> double \<Rightarrow> nat" where
  "IntegralLength pf v =
     IntegralLength_loop (int_of_double pf (if d_less_zero v then d_uminus v else v)) 0"

definition powers_of_10 :: "real list" where
  "powers_of_10 = [1, 10, 100, 1000, 10000, 100000, 1000000, 10000000, 100000000, 1000000000]"

text \<open>The double nearest to the literal \<open>0.499\<close>.\<close>

definition lit_0499 :: real where
  "lit_0499 = fl (499 / 1000)"

text \<open>
  The rounding step: from the scaled fraction and the integral part to the fraction
  digits (as a number) and the integral part after a carry.
\<close>

definition round_frac :: "nat \<Rightarrow> real \<Rightarrow> int \<Rightarrow> nat \<times> int" where
  "round_frac prec p10_fraction whole =
     (let int_from_frac = nat \<lfloor>p10_fraction\<rfloor>;
          diff_frac = p10_fraction - of_nat int_from_frac
      in if diff_frac > lit_0499 then
           (if of_nat (int_from_frac + 1) \<ge> powers_of_10 ! prec then (0, whole + 1)
            else (int_from_frac + 1, whole))
         else if diff_frac = 1 / 2 then
           (if prec > 0 \<and> odd int_from_frac then
              (if of_nat (int_from_frac + 1) \<ge> powers_of_10 ! prec then (0, whole + 1)
               else (int_from_frac + 1, whole))
            else if prec = 0 \<and> odd whole then
              (if of_nat (int_from_frac + 1) \<ge> powers_of_10 ! prec then (0, whole + 1)
               else (int_from_frac + 1, whole))
            else (int_from_frac, whole))
         else (int_from_frac, whole))"

text \<open>\<open>while (len_of_sigfig > 0 && ((int_from_frac % 10) == 0))\<close>: drop ending zeros.\<close>

fun strip_zeros :: "nat \<Rightarrow> nat \<Rightarrow> nat \<times> nat" where
  "strip_zeros len_of_sigfig int_from_frac =
     (if len_of_sigfig > 0 \<and> int_from_frac mod 10 = 0
      then strip_zeros (len_of_sigfig - 1) (int_from_frac div 10)
      else (len_of_sigfig, int_from_frac))"

declare strip_zeros.simps [simp del]

definition digit_char :: "nat \<Rightarrow> char" where
  "digit_char d = char_of (48 + d)"

text \<open>
  The fraction digits, least significant first, as they are written to the buffer, and
  what is left of \<open>int_from_frac\<close>.
\<close>

fun frac_digits :: "nat \<Rightarrow> nat \<Rightarrow> string \<times> nat" where
  "frac_digits len_of_sigfig int_from_frac =
     (if len_of_sigfig > 0
      then (case frac_digits (len_of_sigfig - 1) (int_from_frac div 10) of
              (ds, r) \<Rightarrow> (digit_char (int_from_frac mod 10) # ds, r))
      else ([], int_from_frac))"

declare frac_digits.simps [simp del]

text \<open>\<open>do { *wstr++ = (char)(48 + (whole % 10)); } while (whole /= 10);\<close>\<close>

function whole_digits :: "int \<Rightarrow> string" where
  "whole_digits whole =
     (if c_div whole 10 \<noteq> 0 then char_of (48 + c_mod whole 10) # whole_digits (c_div whole 10)
      else [char_of (48 + c_mod whole 10)])"
  by pat_completeness auto
termination
proof (relation "measure (\<lambda>whole. nat \<bar>whole\<bar>)")
  show "wf (measure (\<lambda>whole. nat \<bar>whole\<bar>))" by simp
next
  fix whole :: int
  assume "c_div whole 10 \<noteq> 0"
  then have "\<bar>c_div whole 10\<bar> < \<bar>whole\<bar>"
    by (auto simp: c_div_def sgn_if abs_mult split: if_splits)
  then show "(c_div whole 10, whole) \<in> measure (\<lambda>whole. nat \<bar>whole\<bar>)"
    by simp
qed

declare whole_digits.simps [simp del]

text \<open>
  The precision after clamping to \<open>[0, 9]\<close> and, when \<open>fit_len > 0\<close>, after the resize;
  \<open>None\<close> is the overflow exit. \<open>fit_len - len_of_integral - 2\<close> is computed in
  \<open>size_t\<close> and wraps; the assignment to the \<open>uint8_t\<close> keeps the low byte.
\<close>

definition fit_prec :: "platform \<Rightarrow> double \<Rightarrow> bool \<Rightarrow> nat \<Rightarrow> nat \<Rightarrow> bool \<Rightarrow> nat option" where
  "fit_prec pf v neg prec fit_len pos_sign =
     (let prec = (if prec > 9 then 9 else prec)
      in if fit_len > 0 then
           (let len_of_integral = IntegralLength pf v
            in if len_of_integral \<ge> fit_len then None
               else (let room = nat ((int fit_len - int len_of_integral - 2) mod 2 ^ 32)
                     in if prec > room then
                          (let prec = room mod 256
                           in Some (if \<not> pos_sign \<and> \<not> neg then (prec + 1) mod 256 else prec))
                        else Some prec))
         else Some prec)"

text \<open>The char-buffer overload: the text and the returned length.\<close>

definition dtoa :: "platform \<Rightarrow> double \<Rightarrow> uint8 \<Rightarrow> uint8 \<Rightarrow> bool \<Rightarrow> bool \<Rightarrow> string \<times> nat" where
  "dtoa pf value0 prec0 fit_len zero_trail pos_sign =
     (if \<not> d_eq_self value0 then (''NaN'', 0)
      else
        (let neg = d_less_zero value0;
             v = (if neg then d_uminus value0 else value0);
             whole = int_of_double pf v
         in case fit_prec pf v neg (unat prec0) (unat fit_len) pos_sign of
              None \<Rightarrow> (''NaN'', 0)
            | Some prec \<Rightarrow>
                if d_greater_thres v then
                  (let s = sprintf_f pf pos_sign prec (if neg then d_uminus v else v)
                   in (s, length s))
                else
                  (case d_finite v of
                     Some q \<Rightarrow>
                       (let p10_fraction = fl ((q - of_int whole) * (powers_of_10 ! prec));
                            (int_from_frac, whole) = round_frac prec p10_fraction whole;
                            (len_of_sigfig, int_from_frac) =
                               (if prec > 0 \<and> \<not> zero_trail then strip_zeros prec int_from_frac
                                else (prec, int_from_frac));
                            has_decimal = (prec > 0 \<and> len_of_sigfig > 0);
                            (fdigits, int_from_frac) =
                               (if prec > 0 then frac_digits len_of_sigfig int_from_frac
                                else ([], int_from_frac));
                            whole = (if prec > 0 \<and> int_from_frac > 0 then whole + 1 else whole);
                            buf = fdigits @ (if has_decimal then ''.'' else [])
                                  @ whole_digits whole
                                  @ (if neg then ''-'' else if pos_sign then ''+'' else [])
                        in (rev buf, length buf))
                   | None \<Rightarrow> (''NaN'', 0))))"

text \<open>
  The same computation in stages, each a function of the result of the stage before
  (\<open>dtoa_staged\<close> below): the form in which the encoder is evaluated at an input.
\<close>

definition dtoa_text :: "nat \<Rightarrow> bool \<Rightarrow> bool \<Rightarrow> int \<Rightarrow> nat \<Rightarrow> string \<times> nat \<Rightarrow> string \<times> nat" where
  "dtoa_text p neg ps w ls fd =
     (let buf = fst fd @ (if p > 0 \<and> ls > 0 then ''.'' else [])
                @ whole_digits (if p > 0 \<and> snd fd > 0 then w + 1 else w)
                @ (if neg then ''-'' else if ps then ''+'' else [])
      in (rev buf, length buf))"

definition dtoa_frac :: "nat \<Rightarrow> bool \<Rightarrow> bool \<Rightarrow> int \<Rightarrow> nat \<times> nat \<Rightarrow> string \<times> nat" where
  "dtoa_frac p neg ps w sz =
     dtoa_text p neg ps w (fst sz) (if p > 0 then frac_digits (fst sz) (snd sz) else ([], snd sz))"

definition dtoa_strip :: "nat \<Rightarrow> bool \<Rightarrow> bool \<Rightarrow> bool \<Rightarrow> nat \<times> int \<Rightarrow> string \<times> nat" where
  "dtoa_strip p zt neg ps rf =
     dtoa_frac p neg ps (snd rf) (if p > 0 \<and> \<not> zt then strip_zeros p (fst rf) else (p, fst rf))"

definition dtoa_round :: "real \<Rightarrow> nat \<Rightarrow> bool \<Rightarrow> bool \<Rightarrow> int \<Rightarrow> string \<times> nat" where
  "dtoa_round q p zt ps whole =
     dtoa_strip p zt (q < 0) ps
       (round_frac p (fl ((\<bar>q\<bar> - of_int whole) * powers_of_10 ! p)) whole)"

text \<open>
  The \<open>String\<close> overload. It repeats the computation up to the count of fraction
  digits and then lets the \<open>String\<close> constructor of the Arduino core write the number.
\<close>

definition String_build :: "platform \<Rightarrow> bool \<Rightarrow> bool \<Rightarrow> double \<Rightarrow> nat \<Rightarrow> string" where
  "String_build pf neg pos_sign v n =
     (if neg then String_double pf (d_uminus v) n
      else if pos_sign then ''+'' @ String_double pf v n
      else String_double pf v n)"

definition dtoa_String :: "platform \<Rightarrow> double \<Rightarrow> uint8 \<Rightarrow> uint8 \<Rightarrow> bool \<Rightarrow> bool \<Rightarrow> string \<times> nat" where
  "dtoa_String pf value0 prec0 fit_len zero_trail pos_sign =
     (if \<not> d_eq_self value0 then (''NaN'', 0)
      else
        (let neg = d_less_zero value0;
             v = (if neg then d_uminus value0 else value0);
             whole = int_of_double pf v
         in case fit_prec pf v neg (unat prec0) (unat fit_len) pos_sign of
              None \<Rightarrow> (''NaN'', 0)
            | Some prec \<Rightarrow>
                if d_greater_thres v then
                  (let s = String_build pf neg pos_sign v prec in (s, length s))
                else
                  (case d_finite v of
                     Some q \<Rightarrow>
                       (let p10_fraction = fl ((q - of_int whole) * (powers_of_10 ! prec));
                            (int_from_frac, whole) = round_frac prec p10_fraction whole;
                            (len_of_sigfig, int_from_frac) =
                               (if prec > 0 \<and> \<not> zero_trail then strip_zeros prec int_from_frac
                                else (prec, int_from_frac));
                            s = String_build pf neg pos_sign v len_of_sigfig
                        in (s, length s))
                   | None \<Rightarrow> (''NaN'', 0))))"

text \<open>
  A reference platform for the examples: a conversion out of range saturates (as
  \<open>__fixdfsi\<close> of libgcc does), and both library formatters write the sign and the
  magnitude rounded to the requested number of decimals, ties to even.
\<close>

definition fixed_text :: "nat \<Rightarrow> real \<Rightarrow> string" where
  "fixed_text n a =
     (let m = nat (round_half_even (a * 10 ^ n))
      in rev (whole_digits (int (m div 10 ^ n)))
         @ (if n > 0 then ''.'' @ rev (fst (frac_digits n (m mod 10 ^ n))) else []))"

fun lib_fixed :: "bool \<Rightarrow> nat \<Rightarrow> double \<Rightarrow> string" where
  "lib_fixed show_plus n NaN = ''nan''"
| "lib_fixed show_plus n (Inf s) = (if s then ''-inf'' else if show_plus then ''+inf'' else ''inf'')"
| "lib_fixed show_plus n (Finite q) =
     (if q < 0 then ''-'' else if show_plus then ''+'' else []) @ fixed_text n \<bar>q\<bar>"
| "lib_fixed show_plus n NegZero = ''-'' @ fixed_text n 0"

definition reference_platform :: platform where
  "reference_platform =
     \<lparr>int_of_big = 2147483647, sprintf_f = lib_fixed, String_double = (\<lambda>v n. lib_fixed False n v)\<rparr>"

text \<open>
  The number of decimal digits of a natural number, the yardstick for
  \<open>IntegralLength\<close>: the spec's "decimal digit count of the integral part".
\<close>

fun decimal_digits :: "nat \<Rightarrow> nat" where
  "decimal_digits n = (if n < 10 then 1 else Suc (decimal_digits (n div 10)))"

declare decimal_digits.simps [simp del]

section \<open>The sensor's address (SDI12Sensor.cpp)\<close>

text \<open>
  The object's two members (the source writes their names with an underscore at the
  end) and the board's EEPROM, which the object reads and updates through the global
  \<open>EEPROM\<close>. \<open>SDI12SENSOR_ERR_INVALID\<close> is \<open>-1\<close>, as the
  constructor's comment says.
\<close>

record SDI12Sensor =
  sensor_address :: char
  eeprom_address :: int
  EEPROM :: "int \<Rightarrow> char"

definition DEFAULT_SENSOR_ADDR :: char where
  "DEFAULT_SENSOR_ADDR = CHR ''0''"

definition SDI12SENSOR_ERR_INVALID :: int where
  "SDI12SENSOR_ERR_INVALID = - 1"

text \<open>\<open>isalnum\<close> of \<open>ctype.h\<close> in the C locale: a digit or a letter of ASCII.\<close>

definition isalnum :: "char \<Rightarrow> bool" where
  "isalnum c =
     (let n = (of_char c :: nat)
      in (48 \<le> n \<and> n \<le> 57) \<or> (65 \<le> n \<and> n \<le> 90) \<or> (97 \<le> n \<and> n \<le> 122))"

definition GetAddressFromEEPROM :: "SDI12Sensor \<Rightarrow> char" where
  "GetAddressFromEEPROM s =
     (if eeprom_address s \<ge> 0 then EEPROM s (eeprom_address s) else CHR 0x00)"

text \<open>The two constructors, on a board whose EEPROM holds \<open>mem\<close>.\<close>

definition SDI12Sensor_void :: "(int \<Rightarrow> char) \<Rightarrow> SDI12Sensor" where
  "SDI12Sensor_void mem =
     \<lparr>sensor_address = DEFAULT_SENSOR_ADDR, eeprom_address = SDI12SENSOR_ERR_INVALID,
      EEPROM = mem\<rparr>"

definition SDI12Sensor_new :: "char \<Rightarrow> int \<Rightarrow> (int \<Rightarrow> char) \<Rightarrow> SDI12Sensor" where
  "SDI12Sensor_new address eeprom_addr mem =
     (let s = (if eeprom_addr \<ge> 0 then
                 (let s0 = \<lparr>sensor_address = CHR 0x00, eeprom_address = eeprom_addr,
                            EEPROM = mem\<rparr>
                  in s0\<lparr>sensor_address := GetAddressFromEEPROM s0\<rparr>)
               else \<lparr>sensor_address = address, eeprom_address = SDI12SENSOR_ERR_INVALID,
                     EEPROM = mem\<rparr>)
      in if \<not> isalnum (sensor_address s) then s\<lparr>sensor_address := DEFAULT_SENSOR_ADDR\<rparr>
         else s)"

definition SetAddress :: "char \<Rightarrow> SDI12Sensor \<Rightarrow> bool \<times> SDI12Sensor" where
  "SetAddress address s =
     (if isalnum address then
        (let s1 = s\<lparr>sensor_address := address\<rparr>;
             s2 = (if eeprom_address s1 \<ge> 0
                   then s1\<lparr>EEPROM := (EEPROM s1)(eeprom_address s1 := address)\<rparr>
                   else s1)
         in (True, s2))
      else (False, s))"

definition Address :: "SDI12Sensor \<Rightarrow> char" where
  "Address s = sensor_address s"

text \<open>A sequence of \<open>SetAddress\<close> calls, whatever each returns.\<close>

fun SetAddress_calls :: "char list \<Rightarrow> SDI12Sensor \<Rightarrow> SDI12Sensor" where
  "SetAddress_calls [] s = s"
| "SetAddress_calls (c # cs) s = SetAddress_calls cs (snd (SetAddress c s))"

text \<open>A sensor that mirrors its address in EEPROM slot 3, which holds \<open>7\<close>.\<close>

definition sensor_with_eeprom :: SDI12Sensor where
  "sensor_with_eeprom = SDI12Sensor_new (CHR ''a'') 3 (\<lambda>i. CHR ''7'')"

section \<open>The response formatter and the measurement cycle (the two slave sketches)\<close>

definition MEASUREMENT_ARRAY_MAX_SIZE :: nat where
  "MEASUREMENT_ARRAY_MAX_SIZE = 9"

definition MEASUREMENT_STR_ARRAY_MAX_ELEMENT :: nat where
  "MEASUREMENT_STR_ARRAY_MAX_ELEMENT = 10"

text \<open>
  \<open>pollSensor\<close> stores nine \<open>double\<close> literals in a \<open>float\<close> array; these are the
  binary32 values nearest to \<open>1.1\<close>, \<open>-2.22\<close>, \<open>3.333\<close>, \<open>-4.4444\<close>, \<open>5.55555\<close>,
  \<open>-6.666666\<close>, \<open>78.777777\<close>, \<open>-890.888888\<close> and \<open>-0.11111111\<close>.
\<close>

definition pollSensor :: "double list" where
  "pollSensor =
     [Finite (9227469 / 2 ^ 23), Finite (- 9311355 / 2 ^ 22), Finite (13979615 / 2 ^ 22),
      Finite (- 4660291 / 2 ^ 20), Finite (11650833 / 2 ^ 21), Finite (- 3495253 / 2 ^ 19),
      Finite (10325561 / 2 ^ 17), Finite (- 3649081 / 2 ^ 12), Finite (- 14913081 / 2 ^ 27)]"

text \<open>
  One pass of the loop of \<open>formatOutputSDI\<close>, from what \<open>dtoa\<close> returned for the value:
  the text is appended to line \<open>j\<close> when the line's length plus \<open>valStr_len\<close> (the
  returned length, kept in a \<open>uint8_t\<close>) is below \<open>maxChar\<close>, and starts line \<open>j + 1\<close>
  otherwise. \<open>valStr\<close> has room for \<open>SDI12_VALUE_STR_SIZE\<close> characters and the
  terminator; a longer text overruns it, which is \<open>None\<close> here.
\<close>

definition format_put ::
  "uint8 \<Rightarrow> nat \<Rightarrow> string \<times> nat \<Rightarrow> string list \<times> nat \<Rightarrow> (string list \<times> nat) option" where
  "format_put value_str_size maxChar r st =
     (let valStr = fst r; valStr_len = snd r mod 256; dValues = fst st; j = snd st
      in if length valStr > unat value_str_size then None
         else if length (dValues ! j) + valStr_len < maxChar
              then Some (dValues[j := dValues ! j @ valStr], j)
              else Some (dValues[Suc j := valStr], Suc j))"

fun format_loop ::
  "platform \<Rightarrow> uint8 \<Rightarrow> nat \<Rightarrow> double list \<Rightarrow> string list \<times> nat \<Rightarrow> (string list \<times> nat) option" where
  "format_loop pf value_str_size maxChar [] st = Some st"
| "format_loop pf value_str_size maxChar (x # xs) st =
     (case format_put value_str_size maxChar (dtoa pf x 6 value_str_size False True) st of
        None \<Rightarrow> None
      | Some st' \<Rightarrow> format_loop pf value_str_size maxChar xs st')"

text \<open>\<open>while (j < MEASUREMENT_ARRAY_MAX_SIZE) { dValues[++j] = ""; }\<close>\<close>

function fill_blank :: "string list \<Rightarrow> nat \<Rightarrow> string list" where
  "fill_blank dValues j =
     (if j < MEASUREMENT_ARRAY_MAX_SIZE then fill_blank (dValues[Suc j := []]) (Suc j)
      else dValues)"
  by pat_completeness auto
termination
  by (relation "measure (\<lambda>(dValues, j). MEASUREMENT_ARRAY_MAX_SIZE - j)") auto

declare fill_blank.simps [simp del]

text \<open>
  \<open>formatOutputSDI\<close>, with the header's \<open>SDI12_VALUE_STR_SIZE\<close> as a parameter. It reads
  nine values and writes up to ten lines; shorter arrays would be overrun (\<open>None\<close>).
  \<open>dtoa\<close> is called with its default flags: no trailing zeros, positive sign shown.
\<close>

definition formatOutputSDI ::
  "platform \<Rightarrow> uint8 \<Rightarrow> double list \<Rightarrow> string list \<Rightarrow> nat \<Rightarrow> string list option" where
  "formatOutputSDI pf value_str_size measurementValues dValues maxChar =
     (if length measurementValues < MEASUREMENT_ARRAY_MAX_SIZE
         \<or> length dValues < MEASUREMENT_STR_ARRAY_MAX_ELEMENT then None
      else
        (case format_loop pf value_str_size maxChar
                (take MEASUREMENT_ARRAY_MAX_SIZE measurementValues) (dValues[0 := []], 0) of
           None \<Rightarrow> None
         | Some st \<Rightarrow> Some (fill_blank (fst st) (snd st))))"

text \<open>
  The command record and the two enumerations of \<open>SDI12Sensor.h\<close>, with the members the
  sketches name.
\<close>

datatype SDI12SensorCommand_e =
  kUnknown | kAcknowledge | kAddressQuery | kIdentification | kAddressChange | kMeasurement
  | kConcurrentMeasurement | kHighVolumeASCII | kHighVolumeByte | kContinuousMeasurement
  | kDataRequest | kByteDataRequest | kVerification

datatype SDI12SensorState_e =
  kStateLowPower | kStateReady | kStateMeasurement | kStateConcurrent | kStateHighMeasurement
  | kStateContinuous | kStateVerify

record SDI12CommandSet_s =
  address :: char
  primary :: SDI12SensorCommand_e
  secondary :: SDI12SensorCommand_e
  param1 :: int
  param2 :: int

text \<open>
  What a sketch holds: the sensor, the static arrays of \<open>loop\<close>, the older sketch's
  \<open>state\<close> flag, and of the bus object the break marker and what was sent.

  Modelled from the spec: the sensor's \<open>IsActive\<close>, \<open>SetActive\<close> and \<open>SetState\<close> and
  the bus object's \<open>sendResponse\<close>, \<open>LineBreakReceived\<close> and
  \<open>ClearLineMarkingReceived\<close> are not among the sources. \<open>active\<close> is the boolean that
  \<open>SetActive\<close> sets and \<open>IsActive\<close> reads, \<open>sensor_state\<close> the state that \<open>SetState\<close>
  sets, \<open>line_break\<close> the marker that a line break on the bus sets, \<open>LineBreakReceived\<close>
  reads and \<open>ClearLineMarkingReceived\<close> clears, and \<open>sent\<close> the messages given to
  \<open>sendResponse\<close>, oldest first.
\<close>

record sketch =
  sensor :: SDI12Sensor
  active :: bool
  sensor_state :: SDI12SensorState_e
  state :: int
  dValues :: "string list"
  measurementValues :: "double list"
  line_break :: bool
  sent :: "string list"

definition WAIT :: int where
  "WAIT = 0"

definition INITIATE_MEASUREMENT :: int where
  "INITIATE_MEASUREMENT = 2"

definition SDI12_VALUES_STR_SIZE_35 :: nat where
  "SDI12_VALUES_STR_SIZE_35 = 35"

definition CRLF :: string where
  "CRLF = [CHR 0x0D, CHR 0x0A]"

definition sendResponse :: "string \<Rightarrow> sketch \<Rightarrow> sketch" where
  "sendResponse r s = s\<lparr>sent := sent s @ [r]\<rparr>"

text \<open>\<open>delay(2000)\<close>: the time in which a line break (\<open>brk\<close>) can arrive on the bus.\<close>

definition delay_2000 :: "bool \<Rightarrow> sketch \<Rightarrow> sketch" where
  "delay_2000 brk s = s\<lparr>line_break := line_break s \<or> brk\<rparr>"

text \<open>\<open>for (i = 0; i < sizeof(dValues)/sizeof(*dValues); i++) dValues[i] = "";\<close>\<close>

definition clear_dValues :: "sketch \<Rightarrow> sketch" where
  "clear_dValues s = s\<lparr>dValues := map (\<lambda>l. []) (dValues s)\<rparr>"

text \<open>The older sketch: \<open>case INITIATE_MEASUREMENT\<close> of the switch in \<open>loop\<close>.\<close>

definition loop_INITIATE_MEASUREMENT :: "platform \<Rightarrow> uint8 \<Rightarrow> bool \<Rightarrow> sketch \<Rightarrow> sketch option" where
  "loop_INITIATE_MEASUREMENT pf value_str_size brk s0 =
     (let s1 = delay_2000 brk s0;
          s2 = s1\<lparr>measurementValues := pollSensor\<rparr>
      in if line_break s2
         then Some ((clear_dValues s2)\<lparr>line_break := False, state := WAIT\<rparr>)
         else (case formatOutputSDI pf value_str_size (measurementValues s2) (dValues s2)
                      SDI12_VALUES_STR_SIZE_35 of
                 None \<Rightarrow> None
               | Some dv \<Rightarrow>
                   Some ((sendResponse ([Address (sensor s2)] @ CRLF) (s2\<lparr>dValues := dv\<rparr>))
                         \<lparr>line_break := False, state := WAIT\<rparr>)))"

text \<open>
  The newer sketch. After the switch in \<open>loop\<close>: the response goes out when the sensor
  is still active (or the command was an address query), and the sensor is made ready
  and inactive.
\<close>

definition loop_tail :: "SDI12CommandSet_s \<Rightarrow> string \<Rightarrow> sketch \<Rightarrow> sketch" where
  "loop_tail cmd response s =
     (let s1 = (if active s \<or> primary cmd = kAddressQuery then sendResponse (response @ CRLF) s
                else s)
      in s1\<lparr>sensor_state := kStateReady, active := False\<rparr>)"

text \<open>
  \<open>case kStateMeasurement\<close> from the test for a line break on, followed by the
  statements after the switch.
\<close>

definition measurement_done ::
  "platform \<Rightarrow> uint8 \<Rightarrow> SDI12CommandSet_s \<Rightarrow> string \<Rightarrow> sketch \<Rightarrow> sketch option" where
  "measurement_done pf value_str_size cmd response s =
     (if line_break s \<or> \<not> active s
      then Some (loop_tail cmd response ((clear_dValues s)\<lparr>active := False, line_break := False\<rparr>))
      else (case formatOutputSDI pf value_str_size (measurementValues s) (dValues s)
                   SDI12_VALUES_STR_SIZE_35 of
              None \<Rightarrow> None
            | Some dv \<Rightarrow>
                Some (loop_tail cmd [Address (sensor s)] (s\<lparr>dValues := dv, line_break := False\<rparr>))))"

text \<open>\<open>case kStateMeasurement\<close>, entered with the sensor's address as the response.\<close>

definition loop_kStateMeasurement ::
  "platform \<Rightarrow> uint8 \<Rightarrow> SDI12CommandSet_s \<Rightarrow> bool \<Rightarrow> sketch \<Rightarrow> sketch option" where
  "loop_kStateMeasurement pf value_str_size cmd brk s0 =
     (let response = [Address (sensor s0)]
      in if param1 cmd = 0 then
           (let response = response @ ''0219''
            in if primary cmd = kIdentification then Some (loop_tail cmd response s0)
               else (let response = response @ CRLF;
                         s1 = sendResponse response s0;
                         s2 = delay_2000 brk s1;
                         s3 = s2\<lparr>measurementValues := pollSensor\<rparr>
                     in measurement_done pf value_str_size cmd response s3))
         else
           (let response = response @ ''0000''
            in if primary cmd = kIdentification then Some (loop_tail cmd response s0)
               else (let response = response @ CRLF;
                         s1 = sendResponse response s0;
                         s2 = s1\<lparr>active := False\<rparr>
                     in measurement_done pf value_str_size cmd response s2)))"

text \<open>The command \<open>0M!\<close> and a sketch that has just matched it.\<close>

definition command_0M :: SDI12CommandSet_s where
  "command_0M =
     \<lparr>address = CHR ''0'', primary = kMeasurement, secondary = kUnknown, param1 = 0, param2 = 0\<rparr>"

definition sketch_0M :: sketch where
  "sketch_0M =
     \<lparr>sensor = SDI12Sensor_new (CHR ''0'') (- 1) (\<lambda>i. CHR 0x00), active = True,
      sensor_state = kStateMeasurement, state = INITIATE_MEASUREMENT,
      dValues = [''+1'', [], [], [], [], [], [], [], [], []],
      measurementValues = [], line_break = False, sent = []\<rparr>"

definition packed_35 :: "string list" where
  "packed_35 =
     [''+1.1-2.22+3.333-4.4444+5.55555'', ''-6.666666+78.77778-890.8889'', ''-0.111111'',
      [], [], [], [], [], [], []]"

section \<open>Properties of the encoder\<close>

lemma IntegralLength_loop_ge: "len + 1 \<le> IntegralLength_loop val len"
proof (induction val len rule: IntegralLength_loop.induct)
  case (1 val len)
  show ?case
  proof (cases "c_div val 10 > 0")
    case True
    with 1 have "len + 1 + 1 \<le> IntegralLength_loop (c_div val 10) (len + 1)"
      by simp
    with True show ?thesis
      by (subst IntegralLength_loop.simps) simp
  next
    case False
    then show ?thesis
      by (subst IntegralLength_loop.simps) simp
  qed
qed

lemma IntegralLength_pos: "0 < IntegralLength pf v"
  using IntegralLength_loop_ge [of 0] by (simp add: IntegralLength_def Suc_le_eq)

lemma fit_prec_overflow:
  "0 < fit_len \<Longrightarrow> fit_len \<le> IntegralLength pf v \<Longrightarrow>
   fit_prec pf v neg prec fit_len pos_sign = None"
  by (simp add: fit_prec_def Let_def)

lemma c_div_nonneg: "0 \<le> a \<Longrightarrow> 0 < b \<Longrightarrow> c_div a b = a div b"
  by (auto simp: c_div_def sgn_if)

lemma c_mod_nonneg: "0 \<le> a \<Longrightarrow> 0 < b \<Longrightarrow> c_mod a b = a mod b"
  by (simp add: c_mod_def c_div_nonneg minus_mult_div_eq_mod)

lemma c_div_10_pos_iff: "0 < c_div val 10 \<longleftrightarrow> 10 \<le> val"
  by (auto simp: c_div_def sgn_if abs_if)

text \<open>The count is at most \<open>k\<close> for a number below \<open>10^k\<close>, and the number is below
  ten to the count.\<close>

lemma IntegralLength_loop_le:
  "val < 10 ^ k \<Longrightarrow> 0 < k \<Longrightarrow> IntegralLength_loop val len \<le> len + k"
proof (induction k arbitrary: val len)
  case 0
  then show ?case by simp
next
  case (Suc k)
  show ?case
  proof (cases "10 \<le> val")
    case True
    then have d: "c_div val 10 = val div 10"
      by (simp add: c_div_nonneg)
    from True Suc.prems have k: "0 < k"
      by (cases k) auto
    have "val < 10 * x \<Longrightarrow> val div 10 < x" for x :: int
      by arith
    with Suc.prems have "val div 10 < 10 ^ k"
      by simp
    with Suc.IH [of "val div 10" "len + 1"] k
    have "IntegralLength_loop (val div 10) (len + 1) \<le> len + 1 + k"
      by simp
    with True d show ?thesis
      by (subst IntegralLength_loop.simps) (simp add: c_div_10_pos_iff)
  next
    case False
    then show ?thesis
      by (subst IntegralLength_loop.simps) (simp add: c_div_10_pos_iff)
  qed
qed

lemma IntegralLength_loop_lt_pow:
  "0 \<le> val \<Longrightarrow> val < 10 ^ (IntegralLength_loop val len - len)"
proof (induction val len rule: IntegralLength_loop.induct)
  case (1 val len)
  show ?case
  proof (cases "10 \<le> val")
    case True
    then have d: "c_div val 10 = val div 10" and p: "0 < c_div val 10"
      by (simp_all add: c_div_nonneg c_div_10_pos_iff)
    let ?r = "IntegralLength_loop (val div 10) (len + 1)"
    from 1 p d True have ih: "val div 10 < 10 ^ (?r - (len + 1))"
      by simp
    have ge: "len + 1 + 1 \<le> ?r"
      using IntegralLength_loop_ge [of "len + 1" "val div 10"] by simp
    have eq: "IntegralLength_loop val len = ?r"
      using p d by (subst IntegralLength_loop.simps) simp
    from ge have e: "?r - len = Suc (?r - (len + 1))"
      by simp
    from e have pw: "(10::int) ^ (?r - len) = 10 * 10 ^ (?r - (len + 1))"
      by simp
    from ih have "val < 10 * 10 ^ (?r - (len + 1))"
      by linarith
    then show ?thesis
      unfolding eq pw .
  next
    case False
    with 1 show ?thesis
      by (subst IntegralLength_loop.simps) (simp add: c_div_10_pos_iff)
  qed
qed

lemma IntegralLength_int_le_10: "IntegralLength_loop (sint (w :: 32 word)) 0 \<le> 10"
proof -
  have "sint w < 2 ^ 31"
    using sint_lt [of w] by simp
  then have "sint w < 10 ^ 10"
    by simp
  then show ?thesis
    using IntegralLength_loop_le [of "sint w" 10 0] by simp
qed

lemma fit_prec_Some:
  "\<not> (0 < fit_len \<and> fit_len \<le> IntegralLength pf v) \<Longrightarrow>
   \<exists>p. fit_prec pf v neg prec fit_len pos_sign = Some p"
  by (auto simp: fit_prec_def Let_def)

lemma quantum_step:
  "quantum s x =
     (if 0 < s \<and> s < 202402253307310618352495346718917307049556649764142118356901358027430339567995346891960383701437124495187077864316811911389808737385793476867013399940738509921517424276566361364466907742093216341239767678472745068562007483424692698618103355649159556340810056512358769552333414615230502532186327508646006263307707741093494784
         \<and> x * of_int (2 * s) < 9007199254740992
      then quantum (2 * s) x else s)"
  by (subst quantum.simps) simp

lemma lit_0499_value: "lit_0499 = 4494592428115755 / 9007199254740992"
  by (simp add: lit_0499_def fl_def quantum_step round_half_even_def Let_def)

text \<open>The encoder on a finite value of magnitude up to the threshold.\<close>

lemma dtoa_normal:
  assumes "fit_prec pf (Finite \<bar>q\<bar>) (q < 0) (unat prec0) (unat fit_len) ps = Some p"
    and "\<bar>q\<bar> \<le> thres_max"
  shows "dtoa pf (Finite q) prec0 fit_len zt ps =
     (let whole = int_of_double pf (Finite \<bar>q\<bar>);
          rf = round_frac p (fl ((\<bar>q\<bar> - of_int whole) * powers_of_10 ! p)) whole;
          sz = (if p > 0 \<and> \<not> zt then strip_zeros p (fst rf) else (p, fst rf));
          fd = (if p > 0 then frac_digits (fst sz) (snd sz) else ([], snd sz));
          whole' = (if p > 0 \<and> snd fd > 0 then snd rf + 1 else snd rf);
          buf = fst fd @ (if p > 0 \<and> fst sz > 0 then ''.'' else []) @ whole_digits whole'
                @ (if q < 0 then ''-'' else if ps then ''+'' else [])
      in (rev buf, length buf))"
proof -
  have v: "(if q < 0 then d_uminus (Finite q) else Finite q) = Finite \<bar>q\<bar>"
    by auto
  have t: "d_greater_thres (Finite \<bar>q\<bar>) = False"
    using assms(2) by simp
  show ?thesis
    unfolding dtoa_def Let_def split_beta
    by (simp only: d_eq_self.simps d_less_zero.simps v assms(1) t if_True if_False
        not_True_eq_False not_False_eq_True option.case d_finite.simps fst_conv snd_conv simp_thms)
qed

lemma dtoa_staged:
  "dtoa pf (Finite q) prec0 fit_len zt ps =
     (case fit_prec pf (Finite \<bar>q\<bar>) (q < 0) (unat prec0) (unat fit_len) ps of
        None \<Rightarrow> (''NaN'', 0)
      | Some p \<Rightarrow>
          if \<bar>q\<bar> > thres_max
          then (let s = sprintf_f pf ps p (Finite q) in (s, length s))
          else dtoa_round q p zt ps (int_of_double pf (Finite \<bar>q\<bar>)))"
proof (cases "fit_prec pf (Finite \<bar>q\<bar>) (q < 0) (unat prec0) (unat fit_len) ps")
  case None
  have v: "(if q < 0 then d_uminus (Finite q) else Finite q) = Finite \<bar>q\<bar>"
    by auto
  show ?thesis
    unfolding dtoa_def Let_def
    by (simp only: d_eq_self.simps d_less_zero.simps v None option.case
        not_True_eq_False if_False)
next
  case (Some p)
  show ?thesis
  proof (cases "\<bar>q\<bar> > thres_max")
    case True
    have v: "(if q < 0 then d_uminus (Finite q) else Finite q) = Finite \<bar>q\<bar>"
      and w: "(if q < 0 then d_uminus (Finite \<bar>q\<bar>) else Finite \<bar>q\<bar>) = Finite q"
      by auto
    have t: "d_greater_thres (Finite \<bar>q\<bar>) = True"
      using True by simp
    show ?thesis
      unfolding dtoa_def Let_def
      by (simp only: d_eq_self.simps d_less_zero.simps v w Some option.case t True
          not_True_eq_False if_False if_True)
  next
    case False
    then have "\<bar>q\<bar> \<le> thres_max"
      by simp
    from dtoa_normal [OF Some this] False show ?thesis
      by (simp only: Some option.case if_False dtoa_round_def dtoa_strip_def dtoa_frac_def
          dtoa_text_def Let_def)
  qed
qed

text \<open>The facts that evaluate the encoder at a given input.\<close>

lemmas dtoa_eval =
  dtoa_staged dtoa_round_def dtoa_strip_def dtoa_frac_def dtoa_text_def
  fit_prec_def fl_def quantum_step round_half_even_def round_frac_def lit_0499_value
  powers_of_10_def Let_def IntegralLength_def IntegralLength_loop.simps strip_zeros.simps
  frac_digits.simps whole_digits.simps c_div_def c_mod_def trunc_real_def thres_max_def
  digit_char_def char_of_def bit_iff_odd

text \<open>
  The branch for a remainder of exactly one half is never taken: one half exceeds the
  double \<open>0.499\<close>, so the first test already rounds up.
\<close>

lemma if_tie_dead:
  "(d = h \<longrightarrow> l < d) \<Longrightarrow>
   (if l < d then A else if d = h then B else C) = (if l < d then A else C)"
  by auto

lemma round_frac_tie_dead:
  "round_frac prec p whole =
     (let i = nat \<lfloor>p\<rfloor>
      in if p - of_nat i > lit_0499
         then (if of_nat (i + 1) \<ge> powers_of_10 ! prec then (0, whole + 1) else (i + 1, whole))
         else (i, whole))"
proof -
  have "lit_0499 < 1 / 2"
    by (simp add: lit_0499_value)
  then have "d = 1 / 2 \<longrightarrow> lit_0499 < d" for d :: real
    by simp
  then show ?thesis
    unfolding round_frac_def Let_def by (rule if_tie_dead)
qed

text \<open>
  C5. A not-a-number input makes both overloads write the three characters \<open>NaN\<close> and
  return length 0, whatever the precision, the field length and the two flags are.
\<close>

theorem dtoa_NaN:
  "dtoa pf NaN prec fit_len zero_trail pos_sign = (''NaN'', 0) \<and>
   dtoa_String pf NaN prec fit_len zero_trail pos_sign = (''NaN'', 0)"
  by (simp add: dtoa_def dtoa_String_def)

text \<open>
  C10. \<open>IntegralLength\<close> returns at least 1 for every double, magnitudes below 1
  included, so with a field length of 1 \<open>dtoa\<close> returns the overflow token \<open>NaN\<close> and
  length 0 for every value.
\<close>

theorem IntegralLength_ge_1_fit_len_1:
  "1 \<le> IntegralLength pf v \<and> dtoa pf v prec 1 zero_trail pos_sign = (''NaN'', 0)"
proof -
  let ?w = "if d_less_zero v then d_uminus v else v"
  have "fit_prec pf ?w (d_less_zero v) (unat prec) (unat (1 :: uint8)) pos_sign = None"
    by (rule fit_prec_overflow) (simp_all add: IntegralLength_pos Suc_le_eq)
  then have "dtoa pf v prec 1 zero_trail pos_sign = (''NaN'', 0)"
    by (simp add: dtoa_def Let_def)
  then show ?thesis
    by (simp add: IntegralLength_pos Suc_le_eq)
qed

lemma IntegralLength_loop_decimal_digits:
  "0 \<le> val \<Longrightarrow> IntegralLength_loop val len = len + decimal_digits (nat val)"
proof (induction val len rule: IntegralLength_loop.induct)
  case (1 val len)
  show ?case
  proof (cases "10 \<le> val")
    case True
    then have d: "c_div val 10 = val div 10" and p: "0 < c_div val 10"
      by (simp_all add: c_div_nonneg c_div_10_pos_iff)
    from True have n: "nat val div 10 = nat (val div 10)" "\<not> nat val < 10"
      by (simp_all add: nat_div_distrib)
    from 1 p d True
    have "IntegralLength_loop (val div 10) (len + 1) = len + 1 + decimal_digits (nat (val div 10))"
      by simp
    with True p d n show ?thesis
      by (subst IntegralLength_loop.simps, subst decimal_digits.simps) simp
  next
    case False
    with 1 have "nat val < 10"
      by simp
    with False show ?thesis
      by (subst IntegralLength_loop.simps, subst decimal_digits.simps)
        (simp add: c_div_10_pos_iff)
  qed
qed

lemma IntegralLength_in_range:
  assumes "\<bar>q\<bar> < 2147483648"
  shows "IntegralLength pf (Finite q) = decimal_digits (nat \<lfloor>\<bar>q\<bar>\<rfloor>)"
proof -
  have a: "(if d_less_zero (Finite q) then d_uminus (Finite q) else Finite q) = Finite \<bar>q\<bar>"
    by simp
  have "\<lfloor>\<bar>q\<bar>\<rfloor> < 2147483648"
    using assms by (simp add: floor_less_iff)
  moreover have "- 2147483648 \<le> \<bar>q\<bar>"
    by (rule order_trans [OF _ abs_ge_zero]) simp
  ultimately have "int_of_double pf (Finite \<bar>q\<bar>) = \<lfloor>\<bar>q\<bar>\<rfloor>"
    by (simp add: trunc_real_def)
  then show ?thesis
    unfolding IntegralLength_def a
    by (simp add: IntegralLength_loop_decimal_digits)
qed

lemma dtoa_overflow_in_range:
  assumes "\<bar>q\<bar> < 2147483648" and "0 < unat fit_len"
    and "unat fit_len \<le> decimal_digits (nat \<lfloor>\<bar>q\<bar>\<rfloor>)"
  shows "dtoa pf (Finite q) prec fit_len zero_trail pos_sign = (''NaN'', 0)"
proof -
  let ?w = "if d_less_zero (Finite q) then d_uminus (Finite q) else Finite q"
  have w: "?w = Finite \<bar>q\<bar>"
    by simp
  have "IntegralLength pf (Finite \<bar>q\<bar>) = decimal_digits (nat \<lfloor>\<bar>q\<bar>\<rfloor>)"
    using IntegralLength_in_range [of "\<bar>q\<bar>" pf] assms(1) by simp
  with assms have "fit_prec pf ?w (d_less_zero (Finite q)) (unat prec) (unat fit_len) pos_sign = None"
    unfolding w by (intro fit_prec_overflow) simp_all
  then show ?thesis
    by (simp add: dtoa_def Let_def)
qed

text \<open>
  C2. A remainder of exactly one half is rounded up whatever the last kept digit is
  (\<open>round_frac_tie_dead\<close>): \<open>0.25\<close> at precision 1 is written \<open>0.3\<close>, with the
  even digit 2 before the half.
\<close>

theorem dtoa_quarter_rounds_up:
  "dtoa pf (Finite (1 / 4)) 1 0 False False = (''0.3'', 3) \<and>
   dtoa pf (Finite (1 / 4)) 1 0 False True = (''+0.3'', 4)"
  by (simp add: dtoa_eval)

lemma dtoa_015: "dtoa pf (Finite (fl (15 / 100))) 1 0 False False = (''0.2'', 3)"
  by (simp add: dtoa_eval)

text \<open>
  C6. For a finite value of magnitude below \<open>2^31\<close> the claim holds
  (\<open>dtoa_overflow_in_range\<close>). Above, \<open>IntegralLength\<close> counts the digits of
  whatever the conversion to \<open>int\<close> yields, at most ten: at \<open>10^20\<close> (21 digits) with
  a field length of 15 the encoder does not return the overflow token.
\<close>

theorem dtoa_large_not_overflow:
  "unat (15 :: uint8) \<le> decimal_digits (nat \<lfloor>\<bar>10 ^ 20 :: real\<bar>\<rfloor>) \<and>
   dtoa pf (Finite (10 ^ 20)) 6 15 False True \<noteq> (''NaN'', 0)"
proof -
  have big: "\<not> (trunc_real (10 ^ 20) \<le> 2147483647)"
    by (simp add: trunc_real_def)
  have len: "IntegralLength pf (Finite (10 ^ 20)) \<le> 10"
    using big IntegralLength_int_le_10 [of "int_of_big pf"]
    by (simp add: IntegralLength_def)
  obtain prec where p: "fit_prec pf (Finite (10 ^ 20)) False (unat (6 :: uint8)) (unat (15 :: uint8)) True = Some prec"
    using len fit_prec_Some [of 15 pf "Finite (10 ^ 20)" False 6 True] by auto
  have "dtoa pf (Finite (10 ^ 20)) 6 15 False True \<noteq> (''NaN'', 0)"
    using p by (auto simp: dtoa_def Let_def thres_max_def)
  then show ?thesis
    by (simp add: decimal_digits.simps)
qed

lemma quantum_pos: "0 < s \<Longrightarrow> 0 < quantum s x"
proof (induction s x rule: quantum.induct)
  case (1 s x)
  then show ?case
    by (subst quantum.simps) simp
qed

lemma round_half_even_bounds: "\<lfloor>r\<rfloor> \<le> round_half_even r \<and> round_half_even r \<le> \<lceil>r\<rceil>"
proof -
  have "r - of_int \<lfloor>r\<rfloor> \<noteq> 0 \<Longrightarrow> \<lfloor>r\<rfloor> + 1 \<le> \<lceil>r\<rceil>"
    by (metis ceiling_altdef diff_self order_refl of_int_floor_cancel eq_iff_diff_eq_0)
  moreover have "\<lfloor>r\<rfloor> \<le> \<lceil>r\<rceil>"
    by (simp add: floor_le_ceiling)
  ultimately show ?thesis
    by (auto simp: round_half_even_def Let_def)
qed

lemma fl_nonneg: "0 \<le> x \<Longrightarrow> 0 \<le> fl x"
proof -
  assume x: "0 \<le> x"
  define s where "s = quantum 1 x"
  have s: "0 < s"
    unfolding s_def by (rule quantum_pos) simp
  with x have "0 \<le> \<lfloor>x * of_int s\<rfloor>"
    by simp
  with round_half_even_bounds [of "x * of_int s"] have "0 \<le> round_half_even (x * of_int s)"
    by linarith
  with s show ?thesis
    by (simp add: fl_def s_def [symmetric] Let_def)
qed

lemma fl_le_of_int: "x \<le> of_int N \<Longrightarrow> fl x \<le> of_int N"
proof -
  assume x: "x \<le> of_int N"
  define s where "s = quantum 1 x"
  have s: "0 < s"
    unfolding s_def by (rule quantum_pos) simp
  with x have "x * of_int s \<le> of_int (N * s)"
    by (simp add: mult_right_mono)
  then have "\<lceil>x * of_int s\<rceil> \<le> N * s"
    by (simp only: ceiling_le_iff)
  with round_half_even_bounds [of "x * of_int s"] have "round_half_even (x * of_int s) \<le> N * s"
    by linarith
  then have "(of_int (round_half_even (x * of_int s)) :: real) \<le> of_int (N * s)"
    by (simp only: of_int_le_iff)
  with s show ?thesis
    by (simp add: fl_def s_def [symmetric] Let_def pos_divide_le_eq)
qed

lemma powers_of_10_nth: "p \<le> 9 \<Longrightarrow> powers_of_10 ! p = 10 ^ p"
proof -
  assume "p \<le> 9"
  then have "p \<in> {0, 1, 2, 3, 4, 5, 6, 7, 8, 9}"
    by auto
  then show ?thesis
    by (auto simp: powers_of_10_def)
qed

lemma strip_zeros_props:
  "strip_zeros l n = (l', n') \<Longrightarrow> l' \<le> l \<and> n = n' * 10 ^ (l - l') \<and> (0 < l' \<longrightarrow> n' mod 10 \<noteq> 0)"
proof (induction l n rule: strip_zeros.induct)
  case (1 l n)
  show ?case
  proof (cases "l > 0 \<and> n mod 10 = 0")
    case True
    with "1.prems" have r: "strip_zeros (l - 1) (n div 10) = (l', n')"
      by (subst (asm) strip_zeros.simps) simp
    with 1 True have ih: "l' \<le> l - 1 \<and> n div 10 = n' * 10 ^ (l - 1 - l') \<and> (0 < l' \<longrightarrow> n' mod 10 \<noteq> 0)"
      by simp
    from True have n: "n = 10 * (n div 10)"
      by auto
    from ih True have e: "l - l' = Suc (l - 1 - l')"
      by auto
    from ih n have "n = n' * 10 ^ (l - l')"
      unfolding e by simp
    with ih show ?thesis
      by auto
  next
    case False
    with "1.prems" have "l' = l" "n' = n"
      by (subst (asm) strip_zeros.simps; simp)+
    with False show ?thesis
      by auto
  qed
qed

lemma strip_zeros_0: "strip_zeros l 0 = (0, 0)"
proof (induction l)
  case 0
  show ?case by (subst strip_zeros.simps) simp
next
  case (Suc l)
  then show ?case by (subst strip_zeros.simps) simp
qed

lemma frac_digits_props:
  "length (fst (frac_digits l n)) = l \<and> snd (frac_digits l n) = n div 10 ^ l"
proof (induction l arbitrary: n)
  case 0
  show ?case by (subst frac_digits.simps, subst frac_digits.simps) simp
next
  case (Suc l)
  from Suc [of "n div 10"] show ?case
    by (subst frac_digits.simps, subst (2) frac_digits.simps)
      (simp add: split_beta div_mult2_eq)
qed

lemma whole_digits_length:
  "0 \<le> n \<Longrightarrow> length (whole_digits n) = decimal_digits (nat n)"
proof (induction n rule: whole_digits.induct)
  case (1 whole)
  show ?case
  proof (cases "10 \<le> whole")
    case True
    then have d: "c_div whole 10 = whole div 10" "c_div whole 10 \<noteq> 0"
      by (simp_all add: c_div_nonneg)
    from True have n: "nat whole div 10 = nat (whole div 10)" "\<not> nat whole < 10"
      by (simp_all add: nat_div_distrib)
    from 1 d True have "length (whole_digits (whole div 10)) = decimal_digits (nat (whole div 10))"
      by simp
    with d n show ?thesis
      by (subst whole_digits.simps, subst decimal_digits.simps) simp
  next
    case False
    with 1 have "c_div whole 10 = 0" "nat whole < 10"
      by (simp_all add: c_div_nonneg)
    then show ?thesis
      by (subst whole_digits.simps, subst decimal_digits.simps) simp
  qed
qed

lemma decimal_digits_Suc: "decimal_digits (Suc n) \<le> Suc (decimal_digits n)"
proof -
  let ?k = "decimal_digits n"
  have "int n < 10 ^ ?k"
    using IntegralLength_loop_lt_pow [of "int n" 0]
    by (simp add: IntegralLength_loop_decimal_digits)
  then have "int n + 1 \<le> 10 ^ ?k"
    by linarith
  moreover have "(10 :: int) ^ ?k < 10 ^ Suc ?k"
    by simp
  ultimately have "int n + 1 < 10 ^ Suc ?k"
    by linarith
  then have "IntegralLength_loop (int n + 1) 0 \<le> 0 + Suc ?k"
    by (intro IntegralLength_loop_le) simp_all
  moreover have "nat (int n + 1) = Suc n"
    by simp
  ultimately show ?thesis
    by (simp add: IntegralLength_loop_decimal_digits del: of_nat_Suc)
qed

lemma round_frac_cases:
  assumes "0 \<le> p10" "p10 \<le> 10 ^ p" "p \<le> 9"
  shows "(snd (round_frac p p10 whole) = whole \<and> fst (round_frac p p10 whole) \<le> 10 ^ p) \<or>
         (snd (round_frac p p10 whole) = whole + 1 \<and> fst (round_frac p p10 whole) = 0)"
proof -
  define i where "i = nat \<lfloor>p10\<rfloor>"
  have "\<lfloor>p10\<rfloor> \<le> 10 ^ p"
    using assms(2) by (simp add: floor_le_iff)
  then have i: "i \<le> 10 ^ p"
    unfolding i_def by (simp add: nat_le_iff)
  have "(powers_of_10 ! p \<le> real (i + 1)) \<longleftrightarrow> (real (10 ^ p) \<le> real (i + 1))"
    using assms(3) by (simp add: powers_of_10_nth)
  also have "\<dots> \<longleftrightarrow> (10 ^ p \<le> i + 1)"
    by (rule of_nat_le_iff)
  finally have c: "(powers_of_10 ! p \<le> real (i + 1)) \<longleftrightarrow> (10 ^ p \<le> i + 1)" .
  show ?thesis
    unfolding round_frac_tie_dead Let_def i_def [symmetric] c
    using i by auto
qed

lemma fit_prec_bound:
  assumes "fit_prec pf v neg prec F pos_sign = Some p" "F < 256"
  shows "p \<le> 9 \<and>
         (IntegralLength pf v + 2 \<le> F \<longrightarrow>
          p + (if neg \<or> pos_sign then 1 else 0) + 1 + IntegralLength pf v \<le> F)"
proof -
  define L where "L = IntegralLength pf v"
  show ?thesis
  proof (cases "L + 2 \<le> F")
    case True
    then have m: "(int F - int L - 2) mod 2 ^ 32 = int F - int L - 2"
      using assms(2) by simp
    have r: "nat (int F - int L - 2) = F - L - 2"
      by simp
    from True assms(2) have s: "(F - L - 2) mod 256 = F - L - 2" "(F - L - 2 + 1) mod 256 = F - L - 2 + 1"
      by simp_all
    from assms(1) True show ?thesis
      unfolding fit_prec_def Let_def L_def [symmetric] m r
      by (auto simp: s split: if_splits)
  next
    case False
    with assms(1) show ?thesis
      unfolding fit_prec_def Let_def L_def [symmetric]
      by (auto split: if_splits)
  qed
qed

text \<open>
  Where the field length is respected: for a finite value of magnitude at most
  \<open>2^31 - 1\<close> when trailing zeros are dropped, the field length is at least 3 (the
  length of the overflow token) and is not one more than the count of integral digits.
\<close>

lemma dtoa_fits:
  assumes zt: "\<not> zero_trail" and q: "\<bar>q\<bar> \<le> 2147483647" and f3: "3 \<le> unat fit_len"
    and ne: "IntegralLength pf (Finite q) + 1 \<noteq> unat fit_len"
  shows "length (fst (dtoa pf (Finite q) prec fit_len zero_trail pos_sign)) \<le> unat fit_len"
proof -
  define F where "F = unat fit_len"
  define a where "a = \<bar>q\<bar>"
  define neg where "neg = (q < 0)"
  define sg :: nat where "sg = (if neg \<or> pos_sign then 1 else 0)"
  define whole where "whole = \<lfloor>a\<rfloor>"
  define L where "L = decimal_digits (nat whole)"
  have a0: "0 \<le> a" and a1: "a \<le> 2147483647"
    using q by (simp_all add: a_def)
  have F256: "F < 256"
    unfolding F_def using unsigned_less [of fit_len, where ?'a = nat] by simp
  have w0: "0 \<le> whole"
    unfolding whole_def using a0 by simp
  have IL: "IntegralLength pf (Finite q) = L" "IntegralLength pf (Finite a) = L"
    using IntegralLength_in_range [of q pf] IntegralLength_in_range [of a pf] a0 a1
    by (simp_all add: a_def L_def whole_def)
  have iod: "int_of_double pf (Finite a) = whole"
  proof -
    have "\<lfloor>a\<rfloor> \<le> 2147483647"
      using a1 by (simp add: floor_le_iff)
    moreover have "- 2147483648 \<le> \<lfloor>a\<rfloor>"
      using w0 by (simp add: whole_def)
    ultimately show ?thesis
      using a0 by (simp add: trunc_real_def whole_def)
  qed
  have v: "(if d_less_zero (Finite q) then d_uminus (Finite q) else Finite q) = Finite a"
    by (simp add: a_def)
  show ?thesis
  proof (cases "F \<le> L")
    case True
    with f3 have "fit_prec pf (Finite a) (d_less_zero (Finite q)) (unat prec) (unat fit_len) pos_sign = None"
      by (intro fit_prec_overflow) (simp_all add: IL F_def)
    then have "dtoa pf (Finite q) prec fit_len zero_trail pos_sign = (''NaN'', 0)"
      unfolding dtoa_def Let_def v by simp
    with f3 show ?thesis
      by simp
  next
    case False
    with ne have L2: "L + 2 \<le> F"
      by (simp add: IL F_def)
    from False obtain p where p: "fit_prec pf (Finite a) neg (unat prec) F pos_sign = Some p"
      using fit_prec_Some [of F pf "Finite a" neg "unat prec" pos_sign] by (auto simp: IL)
    from fit_prec_bound [OF p F256] L2 have p9: "p \<le> 9" and pF: "p + sg + 1 + L \<le> F"
      by (simp_all add: IL sg_def)
    define x where "x = (a - of_int whole) * powers_of_10 ! p"
    define rf where "rf = round_frac p (fl x) whole"
    define sz where "sz = (if p > 0 \<and> \<not> zero_trail then strip_zeros p (fst rf) else (p, fst rf))"
    define fd where "fd = (if p > 0 then frac_digits (fst sz) (snd sz) else ([], snd sz))"
    define whole' where "whole' = (if p > 0 \<and> snd fd > 0 then snd rf + 1 else snd rf)"
    have thr: "a \<le> thres_max"
      using a1 by (simp add: thres_max_def)
    note dn = dtoa_normal [of pf q prec fit_len pos_sign p zero_trail, folded a_def neg_def F_def,
        OF p thr, unfolded Let_def iod, folded x_def, folded rf_def, folded sz_def,
        folded fd_def, folded whole'_def]
    have len: "length (fst (dtoa pf (Finite q) prec fit_len zero_trail pos_sign)) =
        length (fst fd) + (if p > 0 \<and> fst sz > 0 then 1 else 0) + length (whole_digits whole') + sg"
      unfolding dn by (simp add: sg_def neg_def)
    have x0: "0 \<le> x" and x1: "x \<le> of_int (10 ^ p)"
    proof -
      have "0 \<le> a - of_int whole" "a - of_int whole \<le> 1"
        unfolding whole_def by linarith+
      then show "0 \<le> x" "x \<le> of_int (10 ^ p)"
        using p9 by (simp_all add: x_def powers_of_10_nth mult_left_le_one_le)
    qed
    from x0 have f0: "0 \<le> fl x"
      by (rule fl_nonneg)
    from x1 have "fl x \<le> of_int (10 ^ p)"
      by (rule fl_le_of_int)
    then have f1: "fl x \<le> 10 ^ p"
      by simp
    have D: "length (whole_digits whole) = L"
      using w0 by (simp add: whole_digits_length L_def)
    have D1: "length (whole_digits (whole + 1)) \<le> Suc L"
    proof -
      have "nat (whole + 1) = Suc (nat whole)"
        using w0 by simp
      then show ?thesis
        using w0 decimal_digits_Suc [of "nat whole"] by (simp add: whole_digits_length L_def)
    qed
    have sg1: "sg \<le> 1"
      by (simp add: sg_def)
    show ?thesis
    proof (cases "p = 0")
      case True
      then have "fst fd = []" "whole' = snd rf"
        by (simp_all add: fd_def whole'_def)
      moreover from round_frac_cases [OF f0 f1 p9, of whole]
      have "length (whole_digits (snd rf)) \<le> Suc L"
        using D D1 by (auto simp: rf_def)
      ultimately show ?thesis
        unfolding len F_def [symmetric] using True L2 sg1 by simp
    next
      case False
      then have p0: "0 < p"
        by simp
      obtain ls i' where s: "strip_zeros p (fst rf) = (ls, i')"
        by (cases "strip_zeros p (fst rf)")
      from strip_zeros_props [OF s]
      have ls: "ls \<le> p" and i: "fst rf = i' * 10 ^ (p - ls)" and nz: "0 < ls \<longrightarrow> i' mod 10 \<noteq> 0"
        by simp_all
      have sz': "sz = (ls, i')"
        using p0 zt s by (simp add: sz_def)
      have fd': "length (fst fd) = ls" "snd fd = i' div 10 ^ ls"
        using p0 frac_digits_props [of ls i'] by (simp_all add: fd_def sz')
      from round_frac_cases [OF f0 f1 p9, of whole]
      consider (keep) "snd rf = whole" "fst rf \<le> 10 ^ p" | (carry) "snd rf = whole + 1" "fst rf = 0"
        by (auto simp: rf_def)
      then show ?thesis
      proof cases
        case carry
        with s have "ls = 0" "i' = 0"
          by (simp_all add: strip_zeros_0)
        with carry fd' have "length (fst fd) = 0" "whole' = whole + 1" "fst sz = 0"
          by (simp_all add: whole'_def sz')
        then show ?thesis
          unfolding len F_def [symmetric] using D1 L2 sg1 by simp
      next
        case keep
        show ?thesis
        proof (cases "snd fd > 0")
          case True
          then have "\<not> i' < 10 ^ ls"
            unfolding fd' by (cases "i' < 10 ^ ls") simp_all
          then have "10 ^ ls \<le> i'"
            by simp
          then have "10 ^ ls * 10 ^ (p - ls) \<le> i' * 10 ^ (p - ls)"
            by (rule mult_le_mono1)
          moreover have pw: "(10::nat) ^ ls * 10 ^ (p - ls) = 10 ^ p"
            using ls by (simp add: power_add [symmetric])
          ultimately have "10 ^ p \<le> fst rf"
            unfolding i by simp
          with keep have "fst rf = 10 ^ p"
            by simp
          then have "i' * 10 ^ (p - ls) = 10 ^ ls * 10 ^ (p - ls)"
            unfolding pw i .
          then have "i' = 10 ^ ls"
            by (simp only: mult_cancel2) simp
          with nz have "ls = 0"
            by (cases ls) auto
          with True keep fd' p0 have "length (fst fd) = 0" "whole' = whole + 1" "fst sz = 0"
            by (simp_all add: whole'_def sz')
          then show ?thesis
            unfolding len F_def [symmetric] using D1 L2 sg1 by simp
        next
          case False
          with keep have "whole' = whole"
            by (simp add: whole'_def)
          with fd' have "length (fst fd) + (if p > 0 \<and> fst sz > 0 then 1 else 0)
              + length (whole_digits whole') + sg \<le> ls + 1 + L + sg"
            by (simp add: D)
          with ls pF show ?thesis
            unfolding len F_def [symmetric] by linarith
        qed
      qed
    qed
  qed
qed

lemma dtoa_fits_example:
  "\<not> False \<and> \<bar>11 / 2 :: real\<bar> \<le> 2147483647 \<and> 3 \<le> unat (9 :: uint8) \<and>
   IntegralLength reference_platform (Finite (11 / 2)) + 1 \<noteq> unat (9 :: uint8) \<and>
   length (fst (dtoa reference_platform (Finite (11 / 2)) 6 9 False True))
     \<le> unat (9 :: uint8)"
proof -
  have len: "IntegralLength reference_platform (Finite (11 / 2)) = 1"
    by (simp add: dtoa_eval)
  have "length (fst (dtoa reference_platform (Finite (11 / 2)) 6 9 False True))
      \<le> unat (9 :: uint8)"
    by (rule dtoa_fits) (simp_all add: len)
  then show ?thesis
    by (simp add: len)
qed

text \<open>
  The overflow token is longer than a field of one or two characters.
\<close>

lemma dtoa_token_longer_than_field:
  "\<not> length (fst (dtoa pf NaN 0 1 False False)) \<le> unat (1 :: uint8)"
  by (simp add: dtoa_def)

text \<open>
  C1. The text can be longer than the field. With a field length of 9 and the value
  \<open>12345678.5\<close>, whose integral part has eight digits, the overflow exit is not taken
  (8 is below 9); the room for the fraction, \<open>fit_len - len_of_integral - 2\<close>, is
  computed in \<open>size_t\<close> and wraps around below zero, so the precision 6 is not
  reduced, and the text \<open>+12345678.5\<close> has 11 characters.
\<close>

theorem dtoa_overruns_field:
  "IntegralLength pf (Finite (24691357 / 2)) = 8 \<and>
   dtoa pf (Finite (24691357 / 2)) 6 9 False True = (''+12345678.5'', 11) \<and>
   unat (9 :: uint8) < length (fst (dtoa pf (Finite (24691357 / 2)) 6 9 False True))"
proof -
  have l: "IntegralLength pf (Finite (24691357 / 2)) = 8"
    by (simp add: IntegralLength_def IntegralLength_loop.simps c_div_def trunc_real_def)
  have d: "dtoa pf (Finite (24691357 / 2)) 6 9 False True = (''+12345678.5'', 11)"
    by (simp add: dtoa_eval)
  show ?thesis
    unfolding d l by simp
qed

text \<open>
  The same at a field of 2 for one integral digit, and, with the precision resized,
  where a carry into the integral part meets kept trailing zeros.
\<close>

lemma dtoa_resize_wraps:
  "dtoa pf (Finite (5123456 / 1000000)) 6 2 False True = (''+5.123456'', 9)"
  by (simp add: dtoa_eval)

lemma dtoa_carry_with_zeros:
  "dtoa pf (Finite (- 9999 / 1000)) 6 5 True True = (''-10.00'', 6)"
  by (simp add: dtoa_eval)

subsection \<open>The two overloads\<close>

lemma dtoa_String_staged:
  "dtoa_String pf (Finite q) prec0 fit_len zt ps =
     (case fit_prec pf (Finite \<bar>q\<bar>) (q < 0) (unat prec0) (unat fit_len) ps of
        None \<Rightarrow> (''NaN'', 0)
      | Some p \<Rightarrow>
          if \<bar>q\<bar> > thres_max
          then (let s = String_build pf (q < 0) ps (Finite \<bar>q\<bar>) p in (s, length s))
          else (let rf = round_frac p
                      (fl ((\<bar>q\<bar> - of_int (int_of_double pf (Finite \<bar>q\<bar>))) * powers_of_10 ! p))
                      (int_of_double pf (Finite \<bar>q\<bar>));
                    sz = (if p > 0 \<and> \<not> zt then strip_zeros p (fst rf) else (p, fst rf));
                    s = String_build pf (q < 0) ps (Finite \<bar>q\<bar>) (fst sz)
                in (s, length s)))"
proof -
  have v: "(if q < 0 then d_uminus (Finite q) else Finite q) = Finite \<bar>q\<bar>"
    by auto
  have t: "d_greater_thres (Finite \<bar>q\<bar>) = (\<bar>q\<bar> > thres_max)"
    by simp
  show ?thesis
    unfolding dtoa_String_def Let_def split_beta
    by (simp only: d_eq_self.simps d_less_zero.simps v t d_finite.simps option.case
        not_True_eq_False if_False)
qed

text \<open>
  The char-buffer overload writes the same text for the two zeros; the \<open>String\<close>
  overload hands the negative zero to the library.
\<close>

lemma fit_prec_NegZero:
  "fit_prec pf NegZero neg n m ps = fit_prec pf (Finite 0) neg n m ps"
  by (simp add: fit_prec_def IntegralLength_def trunc_real_def)

lemma dtoa_NegZero:
  "dtoa pf NegZero prec fit_len zt ps = dtoa pf (Finite 0) prec fit_len zt ps"
proof -
  have i: "int_of_double pf (Finite 0) = 0"
    by (simp add: trunc_real_def)
  have n: "int_of_double pf NegZero = 0"
    by simp
  have t: "d_greater_thres (Finite 0) = False" "d_greater_thres NegZero = False"
    by (simp_all add: thres_max_def)
  show ?thesis
    unfolding dtoa_def Let_def split_beta
    by (simp only: d_eq_self.simps d_less_zero.simps d_finite.simps i n t fit_prec_NegZero
        less_irrefl if_False not_True_eq_False)
qed

lemma dtoa_String_NegZero:
  "dtoa_String pf NegZero prec0 fit_len zt ps =
     (case fit_prec pf (Finite 0) False (unat prec0) (unat fit_len) ps of
        None \<Rightarrow> (''NaN'', 0)
      | Some p \<Rightarrow>
          (let rf = round_frac p (fl ((0 - of_int 0) * powers_of_10 ! p)) 0;
               sz = (if p > 0 \<and> \<not> zt then strip_zeros p (fst rf) else (p, fst rf));
               s = String_build pf False ps NegZero (fst sz)
           in (s, length s)))"
proof -
  have n: "int_of_double pf NegZero = 0"
    by simp
  show ?thesis
    unfolding dtoa_String_def Let_def split_beta
    by (simp only: d_eq_self.simps d_less_zero.simps d_greater_thres.simps d_finite.simps
        n fit_prec_NegZero if_False not_True_eq_False option.case)
qed

lemma fl_zero: "fl 0 = 0"
  by (simp add: fl_def round_half_even_def Let_def)

lemma dtoa_negative_zero:
  "dtoa pf NegZero 0 0 False True = (''+0'', 2)"
  by (simp add: dtoa_NegZero dtoa_eval fl_zero del: fl_def)

lemma dtoa_String_negative_zero:
  "dtoa_String pf NegZero 0 0 False True =
     (''+'' @ String_double pf NegZero 0, length (''+'' @ String_double pf NegZero 0))"
  by (simp add: dtoa_String_NegZero String_build_def fit_prec_def Let_def)

lemma lib_fixed_negative_zero: "lib_fixed False 0 NegZero = ''-0''"
  by (simp add: fixed_text_def round_half_even_def Let_def whole_digits.simps
      c_div_def c_mod_def char_of_def bit_iff_odd)

lemma overloads_differ_at_negative_zero:
  "dtoa reference_platform NegZero 0 0 False True = (''+0'', 2) \<and>
   dtoa_String reference_platform NegZero 0 0 False True = (''+-0'', 3)"
  by (simp add: dtoa_negative_zero dtoa_String_negative_zero reference_platform_def
      lib_fixed_negative_zero [simplified])

text \<open>
  A value just below a quarter, \<open>4095/16384 = 0.24993896484375\<close>, at precision 1:
  ten times the fraction leaves a remainder of \<open>0.4994\<close>, above \<open>0.499\<close>, so the
  char-buffer overload rounds up to \<open>0.3\<close>. The \<open>String\<close> overload makes the same
  rounding, keeps of it only the count of fraction digits, and writes
  \<open>String(value, 1)\<close> of the value as it was given: \<open>0.2\<close> for a formatter that
  rounds to the nearest decimal.
\<close>

lemma dtoa_just_below_half:
  "dtoa pf (Finite (4095 / 16384)) 1 0 False False = (''0.3'', 3)"
  by (simp add: dtoa_eval)

lemma dtoa_String_just_below_half:
  "dtoa_String pf (Finite (4095 / 16384)) 1 0 False False =
     (String_double pf (Finite (4095 / 16384)) 1, length (String_double pf (Finite (4095 / 16384)) 1))"
  by (simp add: dtoa_String_staged String_build_def
      fit_prec_def fl_def quantum_step round_half_even_def round_frac_def lit_0499_value
      powers_of_10_def Let_def strip_zeros.simps trunc_real_def thres_max_def)

lemma lib_fixed_just_below_half: "lib_fixed False 1 (Finite (4095 / 16384)) = ''0.2''"
  by (simp add: fixed_text_def round_half_even_def Let_def whole_digits.simps frac_digits.simps
      c_div_def c_mod_def digit_char_def char_of_def bit_iff_odd)

text \<open>
  C9. The two overloads do not return the same text for the same arguments. At
  \<open>0.24993896484375\<close> with precision 1, no field length and no sign shown, the
  char-buffer overload writes \<open>0.3\<close> on every platform, and the \<open>String\<close> overload
  writes what the library's \<open>String(value, 1)\<close> writes for the unrounded value, which
  is \<open>0.2\<close> on the reference platform.
\<close>

theorem overloads_differ:
  "dtoa pf (Finite (4095 / 16384)) 1 0 False False = (''0.3'', 3) \<and>
   dtoa_String pf (Finite (4095 / 16384)) 1 0 False False =
     (String_double pf (Finite (4095 / 16384)) 1,
      length (String_double pf (Finite (4095 / 16384)) 1)) \<and>
   dtoa reference_platform (Finite (4095 / 16384)) 1 0 False False = (''0.3'', 3) \<and>
   dtoa_String reference_platform (Finite (4095 / 16384)) 1 0 False False = (''0.2'', 3)"
  by (simp add: dtoa_just_below_half dtoa_String_just_below_half reference_platform_def
      lib_fixed_just_below_half [simplified])

lemma overloads_differ_unless_library_rounds_up:
  "String_double pf (Finite (4095 / 16384)) 1 \<noteq> ''0.3'' \<Longrightarrow>
   fst (dtoa pf (Finite (4095 / 16384)) 1 0 False False)
     \<noteq> fst (dtoa_String pf (Finite (4095 / 16384)) 1 0 False False)"
  by (simp add: dtoa_just_below_half dtoa_String_just_below_half)

text \<open>
  What the two overloads do share: they return the overflow token with length 0 on
  the same inputs, and each returns the length of its text otherwise.
\<close>

lemma pair_length_not_token: "(s, length s) \<noteq> (''NaN'', 0)"
  by auto

lemma rev_length_not_token: "(rev b, length b) \<noteq> (''NaN'', 0)"
  using pair_length_not_token [of "rev b"] by simp

lemma if_not_eq: "a \<noteq> t \<Longrightarrow> b \<noteq> t \<Longrightarrow> (if c then a else b) \<noteq> t"
  by simp

lemma dtoa_round_not_token: "dtoa_round q p zt ps whole \<noteq> (''NaN'', 0)"
  unfolding dtoa_round_def dtoa_strip_def dtoa_frac_def dtoa_text_def Let_def
  by (rule rev_length_not_token)

lemma fit_prec_arg:
  "fit_prec pf (if d_less_zero (Finite q) then d_uminus (Finite q) else Finite q)
     (d_less_zero (Finite q)) n m ps = fit_prec pf (Finite \<bar>q\<bar>) (q < 0) n m ps"
proof -
  have "(if q < 0 then d_uminus (Finite q) else Finite q) = Finite \<bar>q\<bar>"
    by auto
  then show ?thesis
    by (simp only: d_less_zero.simps)
qed

lemma dtoa_token_iff_Finite:
  "dtoa pf (Finite q) prec fit_len zt ps = (''NaN'', 0) \<longleftrightarrow>
     fit_prec pf (Finite \<bar>q\<bar>) (q < 0) (unat prec) (unat fit_len) ps = None"
proof (cases "fit_prec pf (Finite \<bar>q\<bar>) (q < 0) (unat prec) (unat fit_len) ps")
  case None
  then show ?thesis
    by (simp only: dtoa_staged option.case simp_thms)
next
  case (Some p)
  have "dtoa pf (Finite q) prec fit_len zt ps \<noteq> (''NaN'', 0)"
    unfolding dtoa_staged Some option.case Let_def
    by (rule if_not_eq) (rule pair_length_not_token, rule dtoa_round_not_token)
  with Some show ?thesis
    by (simp only: simp_thms option.distinct)
qed

lemma dtoa_token_iff:
  "dtoa pf v prec fit_len zt ps = (''NaN'', 0) \<longleftrightarrow>
     (\<not> d_eq_self v \<or>
      fit_prec pf (if d_less_zero v then d_uminus v else v) (d_less_zero v) (unat prec)
        (unat fit_len) ps = None)"
proof (cases v)
  case NaN
  then show ?thesis by (simp add: dtoa_def)
next
  case (Inf s)
  then show ?thesis
    by (cases "fit_prec pf (Inf False) s (unat prec) (unat fit_len) ps")
      (auto simp: dtoa_def Let_def)
next
  case (Finite q)
  show ?thesis
    by (simp only: Finite fit_prec_arg dtoa_token_iff_Finite d_eq_self.simps simp_thms)
next
  case NegZero
  show ?thesis
    using dtoa_token_iff_Finite [of pf 0 prec fit_len zt ps]
    by (simp add: NegZero dtoa_NegZero fit_prec_NegZero)
qed

lemma dtoa_String_token_iff_Finite:
  "dtoa_String pf (Finite q) prec fit_len zt ps = (''NaN'', 0) \<longleftrightarrow>
     fit_prec pf (Finite \<bar>q\<bar>) (q < 0) (unat prec) (unat fit_len) ps = None"
proof (cases "fit_prec pf (Finite \<bar>q\<bar>) (q < 0) (unat prec) (unat fit_len) ps")
  case None
  then show ?thesis
    by (simp only: dtoa_String_staged option.case simp_thms)
next
  case (Some p)
  have "dtoa_String pf (Finite q) prec fit_len zt ps \<noteq> (''NaN'', 0)"
    unfolding dtoa_String_staged Some option.case Let_def
    by (rule if_not_eq) (rule pair_length_not_token)+
  with Some show ?thesis
    by (simp only: simp_thms option.distinct)
qed

lemma dtoa_String_token_iff:
  "dtoa_String pf v prec fit_len zt ps = (''NaN'', 0) \<longleftrightarrow>
     (\<not> d_eq_self v \<or>
      fit_prec pf (if d_less_zero v then d_uminus v else v) (d_less_zero v) (unat prec)
        (unat fit_len) ps = None)"
proof (cases v)
  case NaN
  then show ?thesis by (simp add: dtoa_String_def)
next
  case (Inf s)
  then show ?thesis
    by (cases "fit_prec pf (Inf False) s (unat prec) (unat fit_len) ps")
      (auto simp: dtoa_String_def Let_def)
next
  case (Finite q)
  show ?thesis
    by (simp only: Finite fit_prec_arg dtoa_String_token_iff_Finite d_eq_self.simps simp_thms)
next
  case NegZero
  show ?thesis
  proof (cases "fit_prec pf (Finite 0) False (unat prec) (unat fit_len) ps")
    case None
    then show ?thesis
      by (simp add: NegZero dtoa_String_NegZero fit_prec_NegZero)
  next
    case (Some p)
    have "dtoa_String pf NegZero prec fit_len zt ps \<noteq> (''NaN'', 0)"
      unfolding dtoa_String_NegZero Some option.case Let_def
      by (rule pair_length_not_token)
    with Some show ?thesis
      by (simp add: NegZero fit_prec_NegZero)
  qed
qed

lemma dtoa_round_snd:
  "snd (dtoa_round q p zt ps whole) = length (fst (dtoa_round q p zt ps whole))"
  unfolding dtoa_round_def dtoa_strip_def dtoa_frac_def dtoa_text_def Let_def
  by (simp only: fst_conv snd_conv length_rev)

lemma if_snd_length:
  "snd a = length (fst a) \<Longrightarrow> snd b = length (fst b) \<Longrightarrow>
   snd (if c then a else b) = length (fst (if c then a else b))"
  by simp

lemma dtoa_snd_Finite:
  "dtoa pf (Finite q) prec fit_len zt ps \<noteq> (''NaN'', 0) \<Longrightarrow>
   snd (dtoa pf (Finite q) prec fit_len zt ps)
     = length (fst (dtoa pf (Finite q) prec fit_len zt ps))"
proof (cases "fit_prec pf (Finite \<bar>q\<bar>) (q < 0) (unat prec) (unat fit_len) ps")
  case None
  assume "dtoa pf (Finite q) prec fit_len zt ps \<noteq> (''NaN'', 0)"
  with None show ?thesis
    by (simp add: dtoa_staged)
next
  case (Some p)
  show ?thesis
    unfolding dtoa_staged Some option.case Let_def
    by (rule if_snd_length) (simp only: fst_conv snd_conv, rule dtoa_round_snd)
qed

lemma dtoa_snd:
  "snd (dtoa pf v prec fit_len zt ps) =
     (if dtoa pf v prec fit_len zt ps = (''NaN'', 0) then 0
      else length (fst (dtoa pf v prec fit_len zt ps)))"
proof (cases "dtoa pf v prec fit_len zt ps = (''NaN'', 0)")
  case True
  then show ?thesis by simp
next
  case False
  have "snd (dtoa pf v prec fit_len zt ps) = length (fst (dtoa pf v prec fit_len zt ps))"
  proof (cases v)
    case NaN
    with False show ?thesis by (simp add: dtoa_def)
  next
    case (Inf s)
    with False show ?thesis
      by (cases "fit_prec pf (Inf False) s (unat prec) (unat fit_len) ps")
        (auto simp: dtoa_def Let_def)
  next
    case (Finite q)
    from False show ?thesis
      unfolding Finite by (rule dtoa_snd_Finite)
  next
    case NegZero
    from False show ?thesis
      unfolding NegZero dtoa_NegZero by (rule dtoa_snd_Finite)
  qed
  with False show ?thesis by simp
qed

lemma dtoa_String_snd:
  "snd (dtoa_String pf v prec fit_len zt ps) =
     (if dtoa_String pf v prec fit_len zt ps = (''NaN'', 0) then 0
      else length (fst (dtoa_String pf v prec fit_len zt ps)))"
proof (cases "dtoa_String pf v prec fit_len zt ps = (''NaN'', 0)")
  case True
  then show ?thesis by simp
next
  case False
  have "snd (dtoa_String pf v prec fit_len zt ps)
      = length (fst (dtoa_String pf v prec fit_len zt ps))"
  proof (cases v)
    case NaN
    with False show ?thesis by (simp add: dtoa_String_def)
  next
    case (Inf s)
    with False show ?thesis
      by (cases "fit_prec pf (Inf False) s (unat prec) (unat fit_len) ps")
        (auto simp: dtoa_String_def Let_def)
  next
    case (Finite q)
    show ?thesis
    proof (cases "fit_prec pf (Finite \<bar>q\<bar>) (q < 0) (unat prec) (unat fit_len) ps")
      case None
      with False Finite show ?thesis
        by (simp add: dtoa_String_staged)
    next
      case (Some p)
      show ?thesis
        unfolding Finite dtoa_String_staged Some option.case Let_def
        by (rule if_snd_length) (simp_all only: fst_conv snd_conv)
    qed
  next
    case NegZero
    show ?thesis
    proof (cases "fit_prec pf (Finite 0) False (unat prec) (unat fit_len) ps")
      case None
      with False NegZero show ?thesis
        by (simp add: dtoa_String_NegZero)
    next
      case (Some p)
      show ?thesis
        unfolding NegZero dtoa_String_NegZero Some option.case Let_def
        by (simp only: fst_conv snd_conv)
    qed
  qed
  with False show ?thesis by simp
qed

lemma overloads_agree_on_token:
  "(dtoa pf v prec fit_len zt ps = (''NaN'', 0)) = (dtoa_String pf v prec fit_len zt ps = (''NaN'', 0)) \<and>
   snd (dtoa pf v prec fit_len zt ps) =
     (if dtoa pf v prec fit_len zt ps = (''NaN'', 0) then 0
      else length (fst (dtoa pf v prec fit_len zt ps))) \<and>
   snd (dtoa_String pf v prec fit_len zt ps) =
     (if dtoa_String pf v prec fit_len zt ps = (''NaN'', 0) then 0
      else length (fst (dtoa_String pf v prec fit_len zt ps)))"
  using dtoa_snd [of pf v prec fit_len zt ps] dtoa_String_snd [of pf v prec fit_len zt ps]
  by (simp only: dtoa_token_iff dtoa_String_token_iff simp_thms)

section \<open>Properties of the sensor's address\<close>

text \<open>
  C7. In every state, \<open>SetAddress\<close> with a character that is not alphanumeric returns
  false and changes nothing, the EEPROM included; with an alphanumeric character it
  returns true, and \<open>Address\<close> then returns that character.
\<close>

theorem SetAddress_alnum:
  "(\<not> isalnum c \<longrightarrow> SetAddress c s = (False, s)) \<and>
   (isalnum c \<longrightarrow> fst (SetAddress c s) \<and> Address (snd (SetAddress c s)) = c)"
  by (simp add: SetAddress_def Address_def Let_def)

theorem SetAddress_alnum_witness:
  "SetAddress (CHR ''$'') sensor_with_eeprom = (False, sensor_with_eeprom) \<and>
   fst (SetAddress (CHR ''5'') sensor_with_eeprom) \<and>
   Address (snd (SetAddress (CHR ''5'') sensor_with_eeprom)) = CHR ''5''"
  using SetAddress_alnum [of "CHR ''$''" sensor_with_eeprom]
    SetAddress_alnum [of "CHR ''5''" sensor_with_eeprom]
  by (simp add: isalnum_def)

lemma SetAddress_mirror:
  "isalnum c \<Longrightarrow> eeprom_address s \<ge> 0 \<Longrightarrow>
   EEPROM (snd (SetAddress c s)) (eeprom_address s) = c"
  by (simp add: SetAddress_def Let_def)

lemma SetAddress_keeps_alnum:
  "isalnum (Address s) \<Longrightarrow> isalnum (Address (snd (SetAddress c s)))"
  by (simp add: SetAddress_def Address_def Let_def)

lemma SetAddress_calls_keep_alnum:
  "isalnum (Address s) \<Longrightarrow> isalnum (Address (SetAddress_calls cs s))"
  by (induction cs arbitrary: s) (simp_all add: SetAddress_keeps_alnum)

lemma isalnum_default: "isalnum DEFAULT_SENSOR_ADDR"
  by (simp add: isalnum_def DEFAULT_SENSOR_ADDR_def)

lemma SDI12Sensor_new_address:
  "Address (SDI12Sensor_new a e mem) =
     (if isalnum (if e \<ge> 0 then mem e else a) then (if e \<ge> 0 then mem e else a)
      else DEFAULT_SENSOR_ADDR)"
  by (simp add: SDI12Sensor_new_def Address_def GetAddressFromEEPROM_def Let_def)

text \<open>
  C8. After either constructor and after any sequence of \<open>SetAddress\<close> calls the
  address is alphanumeric: the constructor takes the address from the EEPROM slot
  when one is given and from its argument otherwise, and puts the default \<open>0\<close> in
  its place when it is not alphanumeric; \<open>SetAddress\<close> stores alphanumeric
  characters only.
\<close>

theorem address_always_alnum:
  "isalnum (Address (SetAddress_calls cs (SDI12Sensor_new a e mem))) \<and>
   isalnum (Address (SetAddress_calls cs (SDI12Sensor_void mem))) \<and>
   Address (SDI12Sensor_new a e mem) =
     (if isalnum (if e \<ge> 0 then mem e else a) then (if e \<ge> 0 then mem e else a)
      else CHR ''0'')"
proof -
  have "isalnum (Address (SDI12Sensor_new a e mem))"
    by (simp add: SDI12Sensor_new_address isalnum_default)
  moreover have "isalnum (Address (SDI12Sensor_void mem))"
    by (simp add: SDI12Sensor_void_def Address_def isalnum_default)
  ultimately show ?thesis
    by (simp add: SetAddress_calls_keep_alnum SDI12Sensor_new_address DEFAULT_SENSOR_ADDR_def)
qed

section \<open>Properties of the formatter and of the measurement cycle\<close>

lemmas format_eval = formatOutputSDI_def format_put_def fill_blank.simps
  MEASUREMENT_ARRAY_MAX_SIZE_def MEASUREMENT_STR_ARRAY_MAX_ELEMENT_def Let_def

lemma dtoa_pollSensor:
  "dtoa pf (Finite (9227469 / 2 ^ 23)) 6 9 False True = (''+1.1'', 4)"
  "dtoa pf (Finite (- 9311355 / 2 ^ 22)) 6 9 False True = (''-2.22'', 5)"
  "dtoa pf (Finite (13979615 / 2 ^ 22)) 6 9 False True = (''+3.333'', 6)"
  "dtoa pf (Finite (- 4660291 / 2 ^ 20)) 6 9 False True = (''-4.4444'', 7)"
  "dtoa pf (Finite (11650833 / 2 ^ 21)) 6 9 False True = (''+5.55555'', 8)"
  "dtoa pf (Finite (- 3495253 / 2 ^ 19)) 6 9 False True = (''-6.666666'', 9)"
  "dtoa pf (Finite (10325561 / 2 ^ 17)) 6 9 False True = (''+78.77778'', 9)"
  "dtoa pf (Finite (- 3649081 / 2 ^ 12)) 6 9 False True = (''-890.8889'', 9)"
  "dtoa pf (Finite (- 14913081 / 2 ^ 27)) 6 9 False True = (''-0.111111'', 9)"
  by (simp_all add: dtoa_eval)

lemma formatOutputSDI_pollSensor_35:
  "formatOutputSDI pf 9 pollSensor [l0, l1, l2, l3, l4, l5, l6, l7, l8, l9] 35 =
     Some [''+1.1-2.22+3.333-4.4444+5.55555'', ''-6.666666+78.77778-890.8889'', ''-0.111111'',
           [], [], [], [], [], [], []]"
  by (simp add: format_eval pollSensor_def dtoa_pollSensor [simplified])

lemma formatOutputSDI_pollSensor_75:
  "formatOutputSDI pf 9 pollSensor [l0, l1, l2, l3, l4, l5, l6, l7, l8, l9] 75 =
     Some [''+1.1-2.22+3.333-4.4444+5.55555-6.666666+78.77778-890.8889-0.111111'',
           [], [], [], [], [], [], [], [], []]"
  by (simp add: format_eval pollSensor_def dtoa_pollSensor [simplified])

lemma dtoa_short_fields:
  "dtoa pf (Finite (5 / 4)) 6 9 False True = (''+1.25'', 5)"
  "dtoa pf (Finite (3 / 2)) 6 9 False True = (''+1.5'', 4)"
  by (simp_all add: dtoa_eval)

lemma dtoa_of_NaN: "dtoa pf NaN prec fit_len zero_trail pos_sign = (''NaN'', 0)"
  by (simp add: dtoa_def)

text \<open>
  C4. The line grows past the cap when a field is the overflow token: \<open>dtoa\<close> returns
  length 0 for it, the test adds 0 to the line's length, and the three characters are
  appended all the same. Eight short fields fill line 0 to 34 characters; a ninth
  value that is not a number makes it 37, above the cap of 35.
\<close>

theorem formatOutputSDI_overlong_line:
  "formatOutputSDI pf 9
     [Finite (5 / 4), Finite (5 / 4), Finite (3 / 2), Finite (3 / 2), Finite (3 / 2),
      Finite (3 / 2), Finite (3 / 2), Finite (3 / 2), NaN]
     [[], [], [], [], [], [], [], [], [], []] 35 =
   Some [''+1.25+1.25+1.5+1.5+1.5+1.5+1.5+1.5NaN'', [], [], [], [], [], [], [], [], []] \<and>
   length ''+1.25+1.25+1.5+1.5+1.5+1.5+1.5+1.5NaN'' = 37"
  by (simp add: format_eval dtoa_short_fields [simplified] dtoa_of_NaN)

lemma list_of_length_10:
  "length xs = 10 \<Longrightarrow> \<exists>l0 l1 l2 l3 l4 l5 l6 l7 l8 l9. xs = [l0, l1, l2, l3, l4, l5, l6, l7, l8, l9]"
  by (auto simp: numeral_eq_Suc length_Suc_conv)

lemma formatOutputSDI_pollSensor:
  assumes "length dv = 10"
  shows "formatOutputSDI pf 9 pollSensor dv 35 = Some packed_35"
proof -
  from list_of_length_10 [OF assms] obtain l0 l1 l2 l3 l4 l5 l6 l7 l8 l9
    where "dv = [l0, l1, l2, l3, l4, l5, l6, l7, l8, l9]"
    by blast
  then show ?thesis
    by (simp only: formatOutputSDI_pollSensor_35 packed_35_def)
qed

lemma map_blank_10: "length xs = 10 \<Longrightarrow> map (\<lambda>l. []) xs = replicate 10 []"
  by (simp add: map_replicate_const)

text \<open>
  C3. A measurement command (\<open>aM!\<close>, so \<open>param1 = 0\<close>) on an active sensor with ten
  response lines, in both sketches. When the break marker is set as the delay ends
  (it was set before, or a break arrives during the delay), all ten lines are empty
  afterwards and nothing but the timing reply of the newer sketch has been sent; the
  test itself clears the lines and sends nothing also when the sensor is no longer
  active. Without a break the lines hold the packed values of \<open>pollSensor\<close> and the
  last message sent is the address followed by carriage return and line feed.
\<close>

theorem measurement_cycle:
  assumes "primary cmd = kMeasurement" and "param1 cmd = 0" and "active s"
    and "length (dValues s) = 10"
  shows
    "(line_break s \<or> brk \<longrightarrow>
        map_option dValues (loop_kStateMeasurement pf 9 cmd brk s) = Some (replicate 10 []) \<and>
        map_option sent (loop_kStateMeasurement pf 9 cmd brk s)
          = Some (sent s @ [[Address (sensor s)] @ ''0219'' @ CRLF]) \<and>
        map_option dValues (loop_INITIATE_MEASUREMENT pf 9 brk s) = Some (replicate 10 []) \<and>
        map_option sent (loop_INITIATE_MEASUREMENT pf 9 brk s) = Some (sent s)) \<and>
     (line_break t \<or> \<not> active t \<longrightarrow>
        map_option dValues (measurement_done pf 9 cmd r t) = Some (map (\<lambda>l. []) (dValues t)) \<and>
        map_option sent (measurement_done pf 9 cmd r t) = Some (sent t)) \<and>
     (\<not> line_break s \<and> \<not> brk \<longrightarrow>
        map_option dValues (loop_kStateMeasurement pf 9 cmd brk s) = Some packed_35 \<and>
        map_option sent (loop_kStateMeasurement pf 9 cmd brk s)
          = Some (sent s @ [[Address (sensor s)] @ ''0219'' @ CRLF, [Address (sensor s)] @ CRLF]) \<and>
        map_option dValues (loop_INITIATE_MEASUREMENT pf 9 brk s) = Some packed_35 \<and>
        map_option sent (loop_INITIATE_MEASUREMENT pf 9 brk s)
          = Some (sent s @ [[Address (sensor s)] @ CRLF]))"
  using assms
  by (simp add: loop_kStateMeasurement_def loop_INITIATE_MEASUREMENT_def measurement_done_def
      loop_tail_def sendResponse_def delay_2000_def clear_dValues_def Let_def
      SDI12_VALUES_STR_SIZE_35_def formatOutputSDI_pollSensor map_blank_10)

theorem measurement_cycle_witness:
  "map_option dValues (loop_kStateMeasurement reference_platform 9 command_0M True sketch_0M)
     = Some (replicate 10 []) \<and>
   map_option sent (loop_kStateMeasurement reference_platform 9 command_0M True sketch_0M)
     = Some [''00219'' @ CRLF] \<and>
   map_option sent (loop_INITIATE_MEASUREMENT reference_platform 9 True sketch_0M) = Some [] \<and>
   map_option sent
     (measurement_done reference_platform 9 command_0M [] (sketch_0M\<lparr>active := False\<rparr>))
     = Some [] \<and>
   map_option dValues (loop_kStateMeasurement reference_platform 9 command_0M False sketch_0M)
     = Some packed_35 \<and>
   map_option sent (loop_kStateMeasurement reference_platform 9 command_0M False sketch_0M)
     = Some [''00219'' @ CRLF, ''0'' @ CRLF] \<and>
   map_option sent (loop_INITIATE_MEASUREMENT reference_platform 9 False sketch_0M)
     = Some [''0'' @ CRLF]"
  using measurement_cycle [where cmd = command_0M and s = sketch_0M and brk = True
      and pf = reference_platform and t = "sketch_0M\<lparr>active := False\<rparr>" and r = "[]"]
    measurement_cycle [where cmd = command_0M and s = sketch_0M and brk = False
      and pf = reference_platform and t = "sketch_0M\<lparr>active := False\<rparr>" and r = "[]"]
  by (simp add: command_0M_def sketch_0M_def SDI12Sensor_new_address isalnum_def)

end
